theory Spec2Isabelle
  imports Main "HOL-Library.Multiset" "HOL-Library.Code_Target_Nat"
begin

section \<open>Strings of the JavaScript runtime\<close>

text \<open>
  A string is modelled as the list of its code points: a surrogate pair is one element, an
  unpaired surrogate is an element of its own. \<open>js\<close> embeds a literal.
\<close>

type_synonym jsstring = "nat list"

definition js :: "string \<Rightarrow> jsstring" where
  "js x = map of_char x"

text \<open>The class \<^verbatim>\<open>\s\<close> of JavaScript regular expressions: U+0009 to U+000D, U+0020, U+00A0,
  U+1680, U+2000 to U+200A, U+2028, U+2029, U+202F, U+205F, U+3000 and U+FEFF.\<close>

definition isWhitespace :: "nat \<Rightarrow> bool" where
  "isWhitespace c =
     (c \<in> set [9, 10, 11, 12, 13, 32, 160, 5760, 8232, 8233, 8239, 8287, 12288, 65279]
      \<or> (8192 \<le> c \<and> c \<le> 8202))"

text \<open>\<^verbatim>\<open>String.prototype.toUpperCase\<close> replaces every code point by the code points of its
  upper case, which can be more than one (U+00DF becomes SS). Among the ASCII code points
  the letters a to z (97 to 122) become A to Z (65 to 90) and every other one stays. The
  mappings of the code points from U+0080 on are those of the Unicode character database
  of the runtime, which is not part of the program: they are the parameter \<open>unicode\<close>.\<close>

definition toUpperCodePoint :: "(nat \<Rightarrow> nat list) \<Rightarrow> nat \<Rightarrow> nat list" where
  "toUpperCodePoint unicode c =
     (if c < 128 then [if 97 \<le> c \<and> c \<le> 122 then c - 32 else c] else unicode c)"

definition toUpperCase :: "(nat \<Rightarrow> nat list) \<Rightarrow> jsstring \<Rightarrow> jsstring" where
  "toUpperCase unicode s = concat (map (toUpperCodePoint unicode) s)"

text \<open>A table to run examples with: the upper-case mappings that the Unicode character
  database gives the code points U+0080 to U+00FF, and no other.\<close>

definition latin1Upper :: "nat \<Rightarrow> nat list" where
  "latin1Upper c =
     (if c = 181 then [924]
      else if c = 223 then [83, 83]
      else if c = 255 then [376]
      else if 224 \<le> c \<and> c \<le> 254 \<and> c \<noteq> 247 then [c - 32]
      else [c])"

text \<open>\<^verbatim>\<open>s.replace(/\s+/g, '_')\<close>: scanning from the left, every maximal run of whitespace
  becomes one underscore (U+005F).\<close>

function replaceWhitespaceRuns :: "jsstring \<Rightarrow> jsstring" where
  "replaceWhitespaceRuns [] = []"
| "replaceWhitespaceRuns (c # cs) =
     (if isWhitespace c then 95 # replaceWhitespaceRuns (dropWhile isWhitespace cs)
      else c # replaceWhitespaceRuns cs)"
  by pat_completeness auto
termination
  by (relation "measure length") (auto simp: length_dropWhile_le less_Suc_eq_le)

text \<open>\<^verbatim>\<open>a || b\<close> on a possibly undefined string: the empty string is falsy.\<close>

definition orElse :: "jsstring option \<Rightarrow> jsstring \<Rightarrow> jsstring" where
  "orElse a b = (case a of None \<Rightarrow> b | Some x \<Rightarrow> if x = [] then b else x)"

section \<open>Data model (schema.prisma)\<close>

type_synonym ident = jsstring
type_synonym DateTime = nat

datatype Priority = LOW | MEDIUM | HIGH

text \<open>The fields of the three models carry a prefix (\<open>b_\<close>, \<open>t_\<close>, \<open>c_\<close>), since the
  models share the field names \<open>id\<close>, \<open>title\<close>, \<open>status\<close> and so on.\<close>

record Board =
  b_id :: ident
  b_title :: jsstring
  b_description :: "jsstring option"
  b_createdAt :: DateTime
  b_updatedAt :: DateTime

record Task =
  t_id :: ident
  t_title :: jsstring
  t_description :: "jsstring option"
  t_status :: jsstring
  t_priority :: Priority
  t_createdAt :: DateTime
  t_updatedAt :: DateTime
  t_boardId :: ident

record Column =
  c_id :: ident
  c_title :: jsstring
  c_status :: jsstring
  c_order :: int
  c_createdAt :: DateTime
  c_updatedAt :: DateTime
  c_boardId :: ident

text \<open>The database: the rows of the three tables, in insertion order.\<close>

record Store =
  boards :: "Board list"
  tasks :: "Task list"
  columns :: "Column list"

definition emptyStore :: Store where
  "emptyStore = \<lparr>boards = [], tasks = [], columns = []\<rparr>"

text \<open>What a request cannot decide itself: the identifier that \<^verbatim>\<open>@default(cuid())\<close> gives a
  new row, and the clock behind \<^verbatim>\<open>@default(now())\<close> and \<^verbatim>\<open>@updatedAt\<close>.\<close>

record Env =
  cuid :: ident
  now :: DateTime

section \<open>Persistence gateway (Prisma client over the schema)\<close>

datatype PrismaError =
    P2025  \<comment> \<open>the record to update or delete does not exist\<close>
  | P2002  \<comment> \<open>unique constraint: the \<^verbatim>\<open>@id\<close> is taken\<close>
  | P2003  \<comment> \<open>foreign key constraint: the board of the \<^verbatim>\<open>@relation\<close> is missing\<close>
  | PrismaValidation  \<comment> \<open>an argument is missing or does not fit its column type\<close>

text \<open>\<^verbatim>\<open>order Int\<close>: a 32-bit signed column.\<close>

definition inInt32 :: "int \<Rightarrow> bool" where
  "inInt32 n = (- 2147483648 \<le> n \<and> n \<le> 2147483647)"

definition parsePriority :: "jsstring \<Rightarrow> Priority option" where
  "parsePriority p =
     (if p = js ''LOW'' then Some LOW
      else if p = js ''MEDIUM'' then Some MEDIUM
      else if p = js ''HIGH'' then Some HIGH
      else None)"

definition board_findUnique :: "ident \<Rightarrow> Store \<Rightarrow> Board option" where
  "board_findUnique i s = find (\<lambda>b. b_id b = i) (boards s)"

definition task_findUnique :: "ident \<Rightarrow> Store \<Rightarrow> Task option" where
  "task_findUnique i s = find (\<lambda>t. t_id t = i) (tasks s)"

definition column_findUnique :: "ident \<Rightarrow> Store \<Rightarrow> Column option" where
  "column_findUnique i s = find (\<lambda>c. c_id c = i) (columns s)"

definition board_create ::
  "Env \<Rightarrow> jsstring option \<Rightarrow> jsstring option \<Rightarrow> Store \<Rightarrow> PrismaError + (Board \<times> Store)" where
  "board_create env title description s =
     (case title of
        None \<Rightarrow> Inl PrismaValidation
      | Some ttl \<Rightarrow>
          if board_findUnique (cuid env) s \<noteq> None then Inl P2002
          else
            let b = \<lparr>b_id = cuid env, b_title = ttl, b_description = description,
                     b_createdAt = now env, b_updatedAt = now env\<rparr>
            in Inr (b, s\<lparr>boards := boards s @ [b]\<rparr>))"

text \<open>\<^verbatim>\<open>update\<close>: a field whose value is undefined is left as it is, and when every
  field is undefined the row is left untouched, its \<^verbatim>\<open>updatedAt\<close> included.\<close>

definition board_update ::
  "ident \<Rightarrow> jsstring option \<Rightarrow> jsstring option \<Rightarrow> DateTime \<Rightarrow> Store
     \<Rightarrow> PrismaError + (Board \<times> Store)" where
  "board_update i title description time s =
     (case board_findUnique i s of
        None \<Rightarrow> Inl P2025
      | Some b \<Rightarrow>
          let b' = b\<lparr>b_title := (case title of None \<Rightarrow> b_title b | Some ttl \<Rightarrow> ttl),
                     b_description :=
                       (case description of None \<Rightarrow> b_description b | Some d \<Rightarrow> Some d),
                     b_updatedAt :=
                       (if title = None \<and> description = None then b_updatedAt b else time)\<rparr>
          in Inr (b', s\<lparr>boards := map (\<lambda>x. if b_id x = i then b' else x) (boards s)\<rparr>))"

text \<open>\<^verbatim>\<open>delete\<close> of a board: both relations to Board are declared \<^verbatim>\<open>onDelete: Cascade\<close>, so
  the tasks and the columns of the board go with it.\<close>

definition board_delete :: "ident \<Rightarrow> Store \<Rightarrow> PrismaError + Store" where
  "board_delete i s =
     (case board_findUnique i s of
        None \<Rightarrow> Inl P2025
      | Some b \<Rightarrow>
          Inr \<lparr>boards = filter (\<lambda>x. b_id x \<noteq> i) (boards s),
               tasks = filter (\<lambda>t. t_boardId t \<noteq> i) (tasks s),
               columns = filter (\<lambda>c. c_boardId c \<noteq> i) (columns s)\<rparr>)"

definition task_create ::
  "Env \<Rightarrow> jsstring option \<Rightarrow> jsstring option \<Rightarrow> jsstring \<Rightarrow> jsstring \<Rightarrow> ident \<Rightarrow> Store
     \<Rightarrow> PrismaError + (Task \<times> Store)" where
  "task_create env title description status priority boardId s =
     (case title of
        None \<Rightarrow> Inl PrismaValidation
      | Some ttl \<Rightarrow>
          (case parsePriority priority of
             None \<Rightarrow> Inl PrismaValidation
           | Some prio \<Rightarrow>
               if task_findUnique (cuid env) s \<noteq> None then Inl P2002
               else if board_findUnique boardId s = None then Inl P2003
               else
                 let t = \<lparr>t_id = cuid env, t_title = ttl, t_description = description,
                          t_status = status, t_priority = prio,
                          t_createdAt = now env, t_updatedAt = now env, t_boardId = boardId\<rparr>
                 in Inr (t, s\<lparr>tasks := tasks s @ [t]\<rparr>)))"

definition task_update ::
  "ident \<Rightarrow> jsstring option \<Rightarrow> jsstring option \<Rightarrow> jsstring option \<Rightarrow> jsstring option \<Rightarrow> DateTime
     \<Rightarrow> Store \<Rightarrow> PrismaError + (Task \<times> Store)" where
  "task_update i title description status priority time s =
     (case task_findUnique i s of
        None \<Rightarrow> Inl P2025
      | Some t \<Rightarrow>
          (case (case priority of None \<Rightarrow> Some (t_priority t) | Some p \<Rightarrow> parsePriority p) of
             None \<Rightarrow> Inl PrismaValidation
           | Some prio \<Rightarrow>
               let t' = t\<lparr>t_title := (case title of None \<Rightarrow> t_title t | Some ttl \<Rightarrow> ttl),
                          t_description :=
                            (case description of None \<Rightarrow> t_description t | Some d \<Rightarrow> Some d),
                          t_status := (case status of None \<Rightarrow> t_status t | Some st \<Rightarrow> st),
                          t_priority := prio,
                          t_updatedAt :=
                            (if title = None \<and> description = None \<and> status = None
                                \<and> priority = None
                             then t_updatedAt t else time)\<rparr>
               in Inr (t', s\<lparr>tasks := map (\<lambda>x. if t_id x = i then t' else x) (tasks s)\<rparr>)))"

definition task_delete :: "ident \<Rightarrow> Store \<Rightarrow> PrismaError + Store" where
  "task_delete i s =
     (case task_findUnique i s of
        None \<Rightarrow> Inl P2025
      | Some t \<Rightarrow> Inr (s\<lparr>tasks := filter (\<lambda>x. t_id x \<noteq> i) (tasks s)\<rparr>))"

text \<open>\<^verbatim>\<open>column.findFirst({where: {boardId}, orderBy: {order: 'desc'}})\<close>\<close>

definition column_findFirst :: "ident \<Rightarrow> Store \<Rightarrow> Column option" where
  "column_findFirst boardId s =
     (case sort_key (\<lambda>c. - c_order c) (filter (\<lambda>c. c_boardId c = boardId) (columns s)) of
        [] \<Rightarrow> None
      | c # _ \<Rightarrow> Some c)"

definition column_create ::
  "Env \<Rightarrow> jsstring option \<Rightarrow> jsstring option \<Rightarrow> ident \<Rightarrow> int \<Rightarrow> Store
     \<Rightarrow> PrismaError + (Column \<times> Store)" where
  "column_create env title status boardId ord s =
     (case title of
        None \<Rightarrow> Inl PrismaValidation
      | Some ttl \<Rightarrow>
          (case status of
             None \<Rightarrow> Inl PrismaValidation
           | Some st \<Rightarrow>
               if \<not> inInt32 ord then Inl PrismaValidation
               else if column_findUnique (cuid env) s \<noteq> None then Inl P2002
               else if board_findUnique boardId s = None then Inl P2003
               else
                 let c = \<lparr>c_id = cuid env, c_title = ttl, c_status = st, c_order = ord,
                          c_createdAt = now env, c_updatedAt = now env, c_boardId = boardId\<rparr>
                 in Inr (c, s\<lparr>columns := columns s @ [c]\<rparr>)))"

definition column_update ::
  "ident \<Rightarrow> jsstring option \<Rightarrow> jsstring option \<Rightarrow> int option \<Rightarrow> DateTime \<Rightarrow> Store
     \<Rightarrow> PrismaError + (Column \<times> Store)" where
  "column_update i title status ord time s =
     (case column_findUnique i s of
        None \<Rightarrow> Inl P2025
      | Some c \<Rightarrow>
          if \<not> inInt32 (case ord of None \<Rightarrow> c_order c | Some n \<Rightarrow> n) then Inl PrismaValidation
          else
            let c' = c\<lparr>c_title := (case title of None \<Rightarrow> c_title c | Some ttl \<Rightarrow> ttl),
                       c_status := (case status of None \<Rightarrow> c_status c | Some st \<Rightarrow> st),
                       c_order := (case ord of None \<Rightarrow> c_order c | Some n \<Rightarrow> n),
                       c_updatedAt :=
                         (if title = None \<and> status = None \<and> ord = None
                          then c_updatedAt c else time)\<rparr>
            in Inr (c', s\<lparr>columns := map (\<lambda>x. if c_id x = i then c' else x) (columns s)\<rparr>))"

definition column_delete :: "ident \<Rightarrow> Store \<Rightarrow> PrismaError + Store" where
  "column_delete i s =
     (case column_findUnique i s of
        None \<Rightarrow> Inl P2025
      | Some c \<Rightarrow> Inr (s\<lparr>columns := filter (\<lambda>x. c_id x \<noteq> i) (columns s)\<rparr>))"

text \<open>\<^verbatim>\<open>include: {tasks: {orderBy: {createdAt: 'asc'}}}\<close> and
  \<^verbatim>\<open>include: {board: {select: {id: true, title: true}}}\<close>\<close>

type_synonym BoardWithTasks = "Board \<times> Task list"
type_synonym TaskWithBoard = "Task \<times> (ident \<times> jsstring) option"

definition includeTasks :: "Board \<Rightarrow> Store \<Rightarrow> BoardWithTasks" where
  "includeTasks b s = (b, sort_key t_createdAt (filter (\<lambda>t. t_boardId t = b_id b) (tasks s)))"

definition includeBoard :: "Task \<Rightarrow> Store \<Rightarrow> TaskWithBoard" where
  "includeBoard t s =
     (t, map_option (\<lambda>b. (b_id b, b_title b)) (board_findUnique (t_boardId t) s))"

section \<open>Transport layer: envelopes, bodies and validation (express-validator)\<close>

text \<open>An entry of \<^verbatim>\<open>errors.array()\<close>: the path of the field and its message.\<close>

type_synonym ValidationError = "string \<times> string"

datatype 'a Response =
    Json200 'a  \<comment> \<open>\<^verbatim>\<open>res.json({success: true, data})\<close>\<close>
  | Json201 'a  \<comment> \<open>\<^verbatim>\<open>res.status(201).json({success: true, data})\<close>\<close>
  | Json400 string "ValidationError list"  \<comment> \<open>error and details\<close>
  | Json404 string
  | Json500 string

fun statusCode :: "'a Response \<Rightarrow> nat" where
  "statusCode (Json200 _) = 200"
| "statusCode (Json201 _) = 201"
| "statusCode (Json400 _ _) = 400"
| "statusCode (Json404 _) = 404"
| "statusCode (Json500 _) = 500"

text \<open>Request bodies, as the typed client sends them: a field is absent (\<open>None\<close>) or a
  JSON string, and \<open>order\<close> is absent or a JSON integer.\<close>

record BoardBody =
  bb_title :: "jsstring option"
  bb_description :: "jsstring option"

record TaskBody =
  tb_title :: "jsstring option"
  tb_description :: "jsstring option"
  tb_status :: "jsstring option"
  tb_priority :: "jsstring option"
  tb_boardId :: "jsstring option"

record ColumnBody =
  cb_title :: "jsstring option"
  cb_status :: "jsstring option"
  cb_boardId :: "jsstring option"
  cb_order :: "int option"

text \<open>A sanitizer or a standard validator reads an undefined field as the empty string.\<close>

definition toString :: "jsstring option \<Rightarrow> jsstring" where
  "toString v = (case v of None \<Rightarrow> [] | Some x \<Rightarrow> x)"

text \<open>\<^verbatim>\<open>.trim()\<close>: leading and trailing whitespace is removed, and the trimmed value
  replaces the field of the body.\<close>

definition trim :: "jsstring \<Rightarrow> jsstring" where
  "trim x = rev (dropWhile isWhitespace (rev (dropWhile isWhitespace x)))"

text \<open>\<^verbatim>\<open>.isLength({min, max})\<close> counts the code points of the string, the variation
  selectors U+FE0E and U+FE0F left out.\<close>

definition validatorLength :: "jsstring \<Rightarrow> nat" where
  "validatorLength x = length (filter (\<lambda>c. c \<noteq> 65038 \<and> c \<noteq> 65039) x)"

definition isLength :: "nat \<Rightarrow> nat \<Rightarrow> jsstring \<Rightarrow> bool" where
  "isLength mn mx x = (mn \<le> validatorLength x \<and> validatorLength x \<le> mx)"

definition isString :: "jsstring option \<Rightarrow> bool" where
  "isString v = (case v of None \<Rightarrow> False | Some _ \<Rightarrow> True)"

definition isIn :: "jsstring list \<Rightarrow> jsstring \<Rightarrow> bool" where
  "isIn allowed x = (x \<in> set allowed)"

text \<open>One link of a validation chain: nothing when the check holds, the message of
  \<^verbatim>\<open>.withMessage\<close> under the path of the field otherwise.\<close>

definition check :: "string \<Rightarrow> bool \<Rightarrow> string \<Rightarrow> ValidationError list" where
  "check path ok msg = (if ok then [] else [(path, msg)])"

text \<open>\<^verbatim>\<open>.optional()\<close>: the chain is skipped when the field is undefined.\<close>

definition optional :: "'a option \<Rightarrow> ('a \<Rightarrow> ValidationError list) \<Rightarrow> ValidationError list" where
  "optional v chain = (case v of None \<Rightarrow> [] | Some x \<Rightarrow> chain x)"

text \<open>Each validation middleware gives the sanitized body and the errors it collected.\<close>

definition validateBoard :: "BoardBody \<Rightarrow> BoardBody \<times> ValidationError list" where
  "validateBoard body =
     (let title = trim (toString (bb_title body));
          description = map_option trim (bb_description body)
      in (\<lparr>bb_title = Some title, bb_description = description\<rparr>,
          check ''title'' (isLength 1 100 title) ''Title must be between 1 and 100 characters'' @
          optional description (\<lambda>d.
            check ''description'' (isLength 0 500 d)
              ''Description must be less than 500 characters'')))"

definition validateTask :: "TaskBody \<Rightarrow> TaskBody \<times> ValidationError list" where
  "validateTask body =
     (let title = trim (toString (tb_title body));
          description = map_option trim (tb_description body)
      in (body\<lparr>tb_title := Some title, tb_description := description\<rparr>,
          check ''title'' (isLength 1 200 title) ''Title must be between 1 and 200 characters'' @
          optional description (\<lambda>d.
            check ''description'' (isLength 0 1000 d)
              ''Description must be less than 1000 characters'') @
          optional (tb_status body) (\<lambda>st.
            check ''status'' (isString (Some st)) ''Status must be a jsstring'') @
          optional (tb_priority body) (\<lambda>p.
            check ''priority'' (isIn [js ''LOW'', js ''MEDIUM'', js ''HIGH''] p)
              ''Priority must be LOW, MEDIUM, or HIGH'') @
          check ''boardId'' (isString (tb_boardId body)) ''Board ID is required''))"

text \<open>The validators of \<^verbatim>\<open>PUT /api/tasks/:id\<close>: every field is optional.\<close>

definition validateTaskUpdate :: "TaskBody \<Rightarrow> TaskBody \<times> ValidationError list" where
  "validateTaskUpdate body =
     (let title = map_option trim (tb_title body);
          description = map_option trim (tb_description body)
      in (body\<lparr>tb_title := title, tb_description := description\<rparr>,
          optional title (\<lambda>t.
            check ''title'' (isLength 1 200 t) ''Title must be between 1 and 200 characters'') @
          optional description (\<lambda>d.
            check ''description'' (isLength 0 1000 d)
              ''Description must be less than 1000 characters'') @
          optional (tb_status body) (\<lambda>st.
            check ''status'' (isString (Some st)) ''Status must be a jsstring'') @
          optional (tb_priority body) (\<lambda>p.
            check ''priority'' (isIn [js ''LOW'', js ''MEDIUM'', js ''HIGH''] p)
              ''Priority must be LOW, MEDIUM, or HIGH'')))"

definition validateColumn :: "ColumnBody \<Rightarrow> ColumnBody \<times> ValidationError list" where
  "validateColumn body =
     (let title = trim (toString (cb_title body));
          status = trim (toString (cb_status body))
      in (body\<lparr>cb_title := Some title, cb_status := Some status\<rparr>,
          check ''title'' (isLength 1 100 title) ''Title must be between 1 and 100 characters'' @
          check ''status'' (isLength 1 50 status) ''Status must be between 1 and 50 characters'' @
          check ''boardId'' (isString (cb_boardId body)) ''Board ID is required''))"

text \<open>The validators of \<^verbatim>\<open>PUT /api/columns/:id\<close>; \<^verbatim>\<open>isInt({min: 0})\<close> on a JSON integer.\<close>

definition validateColumnUpdate :: "ColumnBody \<Rightarrow> ColumnBody \<times> ValidationError list" where
  "validateColumnUpdate body =
     (let title = map_option trim (cb_title body);
          status = map_option trim (cb_status body)
      in (body\<lparr>cb_title := title, cb_status := status\<rparr>,
          optional title (\<lambda>t.
            check ''title'' (isLength 1 100 t) ''Title must be between 1 and 100 characters'') @
          optional status (\<lambda>st.
            check ''status'' (isLength 1 50 st) ''Status must be between 1 and 50 characters'') @
          optional (cb_order body) (\<lambda>n.
            check ''order'' (0 \<le> n) ''Order must be a non-negative integer'')))"

section \<open>Routes of the boards (the router behind \<^verbatim>\<open>/api/boards\<close>)\<close>

text \<open>\<^verbatim>\<open>GET /api/boards\<close>: newest board first, each with its tasks.\<close>

definition get_boards :: "Store \<Rightarrow> BoardWithTasks list Response" where
  "get_boards s = Json200 (map (\<lambda>b. includeTasks b s) (rev (sort_key b_createdAt (boards s))))"

definition get_board :: "ident \<Rightarrow> Store \<Rightarrow> BoardWithTasks Response" where
  "get_board i s =
     (case board_findUnique i s of
        None \<Rightarrow> Json404 ''Board not found''
      | Some board \<Rightarrow> Json200 (includeTasks board s))"

definition post_board :: "Env \<Rightarrow> BoardBody \<Rightarrow> Store \<Rightarrow> BoardWithTasks Response \<times> Store" where
  "post_board env body s =
     (let (req, errors) = validateBoard body in
      if errors \<noteq> [] then (Json400 ''Validation failed'' errors, s)
      else
        case board_create env (bb_title req) (bb_description req) s of
          Inl e \<Rightarrow> (Json500 ''Failed to create board'', s)
        | Inr (board, s') \<Rightarrow>
            (Json201 (board, filter (\<lambda>t. t_boardId t = b_id board) (tasks s')), s'))"

text \<open>\<^verbatim>\<open>PUT /api/boards/:id\<close> runs the same \<^verbatim>\<open>validateBoard\<close> as the creation.\<close>

definition put_board ::
  "Env \<Rightarrow> ident \<Rightarrow> BoardBody \<Rightarrow> Store \<Rightarrow> BoardWithTasks Response \<times> Store" where
  "put_board env i body s =
     (let (req, errors) = validateBoard body in
      if errors \<noteq> [] then (Json400 ''Validation failed'' errors, s)
      else
        case board_update i (bb_title req) (bb_description req) (now env) s of
          Inl e \<Rightarrow>
            (if e = P2025 then (Json404 ''Board not found'', s)
             else (Json500 ''Failed to update board'', s))
        | Inr (board, s') \<Rightarrow> (Json200 (includeTasks board s'), s'))"

definition delete_board :: "ident \<Rightarrow> Store \<Rightarrow> string Response \<times> Store" where
  "delete_board i s =
     (case board_delete i s of
        Inl e \<Rightarrow>
          (if e = P2025 then (Json404 ''Board not found'', s)
           else (Json500 ''Failed to delete board'', s))
      | Inr s' \<Rightarrow> (Json200 ''Board deleted successfully'', s'))"

section \<open>Routes of the tasks (routes/tasks.js, behind \<^verbatim>\<open>/api/tasks\<close>)\<close>

text \<open>\<^verbatim>\<open>GET /api/tasks\<close>: a query parameter filters when it is truthy, that is, present
  and not empty.\<close>

definition get_tasks :: "jsstring option \<Rightarrow> jsstring option \<Rightarrow> Store \<Rightarrow> TaskWithBoard list Response" where
  "get_tasks boardId status s =
     Json200 (map (\<lambda>t. includeBoard t s)
       (sort_key t_createdAt
         (filter (\<lambda>t. (orElse boardId [] = [] \<or> t_boardId t = orElse boardId [])
                     \<and> (orElse status [] = [] \<or> t_status t = orElse status []))
            (tasks s))))"

definition get_task :: "ident \<Rightarrow> Store \<Rightarrow> TaskWithBoard Response" where
  "get_task i s =
     (case task_findUnique i s of
        None \<Rightarrow> Json404 ''Task not found''
      | Some task \<Rightarrow> Json200 (includeBoard task s))"

definition post_task :: "Env \<Rightarrow> TaskBody \<Rightarrow> Store \<Rightarrow> TaskWithBoard Response \<times> Store" where
  "post_task env body s =
     (let (req, errors) = validateTask body in
      if errors \<noteq> [] then (Json400 ''Validation failed'' errors, s)
      else
        case tb_boardId req of
          None \<Rightarrow> (Json500 ''Failed to create task'', s)
        | Some boardId \<Rightarrow>
            (case board_findUnique boardId s of
               None \<Rightarrow> (Json404 ''Board not found'', s)
             | Some board \<Rightarrow>
                 (case task_create env (tb_title req) (tb_description req)
                         (orElse (tb_status req) (js ''TODO''))
                         (orElse (tb_priority req) (js ''MEDIUM''))
                         boardId s of
                    Inl e \<Rightarrow> (Json500 ''Failed to create task'', s)
                  | Inr (task, s') \<Rightarrow> (Json201 (includeBoard task s'), s'))))"

text \<open>\<^verbatim>\<open>PUT /api/tasks/:id\<close>: \<^verbatim>\<open>updateData\<close> holds the fields that are not undefined, and
  never \<^verbatim>\<open>boardId\<close>.\<close>

definition put_task :: "Env \<Rightarrow> ident \<Rightarrow> TaskBody \<Rightarrow> Store \<Rightarrow> TaskWithBoard Response \<times> Store" where
  "put_task env i body s =
     (let (req, errors) = validateTaskUpdate body in
      if errors \<noteq> [] then (Json400 ''Validation failed'' errors, s)
      else
        case task_update i (tb_title req) (tb_description req) (tb_status req) (tb_priority req)
               (now env) s of
          Inl e \<Rightarrow>
            (if e = P2025 then (Json404 ''Task not found'', s)
             else (Json500 ''Failed to update task'', s))
        | Inr (task, s') \<Rightarrow> (Json200 (includeBoard task s'), s'))"

definition delete_task :: "ident \<Rightarrow> Store \<Rightarrow> string Response \<times> Store" where
  "delete_task i s =
     (case task_delete i s of
        Inl e \<Rightarrow>
          (if e = P2025 then (Json404 ''Task not found'', s)
           else (Json500 ''Failed to delete task'', s))
      | Inr s' \<Rightarrow> (Json200 ''Task deleted successfully'', s'))"

section \<open>Routes of the columns (routes/columns.js, behind \<^verbatim>\<open>/api/columns\<close>)\<close>

definition get_columns :: "jsstring option \<Rightarrow> Store \<Rightarrow> (Column \<times> (ident \<times> jsstring) option) list Response" where
  "get_columns boardId s =
     Json200 (map (\<lambda>c. (c, map_option (\<lambda>b. (b_id b, b_title b)) (board_findUnique (c_boardId c) s)))
       (sort_key c_order
         (filter (\<lambda>c. orElse boardId [] = [] \<or> c_boardId c = orElse boardId []) (columns s))))"

text \<open>\<^verbatim>\<open>GET /api/columns/boards/:boardId\<close>: the columns of the board,
  \<^verbatim>\<open>orderBy: {order: 'asc'}\<close>.\<close>

definition get_board_columns :: "ident \<Rightarrow> Store \<Rightarrow> Column list Response" where
  "get_board_columns boardId s =
     Json200 (sort_key c_order (filter (\<lambda>c. c_boardId c = boardId) (columns s)))"

definition get_column :: "ident \<Rightarrow> Store \<Rightarrow> (Column \<times> (ident \<times> jsstring) option) Response" where
  "get_column i s =
     (case column_findUnique i s of
        None \<Rightarrow> Json404 ''Column not found''
      | Some c \<Rightarrow>
          Json200 (c, map_option (\<lambda>b. (b_id b, b_title b)) (board_findUnique (c_boardId c) s)))"

text \<open>The next order number:
  \<^verbatim>\<open>const order = lastColumn ? lastColumn.order + 1 : 0\<close>\<close>

definition nextColumnOrder :: "ident \<Rightarrow> Store \<Rightarrow> int" where
  "nextColumnOrder boardId s =
     (case column_findFirst boardId s of
        None \<Rightarrow> 0
      | Some lastColumn \<Rightarrow> c_order lastColumn + 1)"

definition post_column :: "Env \<Rightarrow> ColumnBody \<Rightarrow> Store \<Rightarrow> Column Response \<times> Store" where
  "post_column env body s =
     (let (req, errors) = validateColumn body in
      if errors \<noteq> [] then (Json400 ''Validation failed'' errors, s)
      else
        case cb_boardId req of
          None \<Rightarrow> (Json500 ''Failed to create column'', s)
        | Some boardId \<Rightarrow>
            (case board_findUnique boardId s of
               None \<Rightarrow> (Json404 ''Board not found'', s)
             | Some board \<Rightarrow>
                 (let ord = nextColumnOrder boardId s in
                  case column_create env (cb_title req) (cb_status req) boardId ord s of
                    Inl e \<Rightarrow> (Json500 ''Failed to create column'', s)
                  | Inr (column, s') \<Rightarrow> (Json201 column, s'))))"

definition put_column :: "Env \<Rightarrow> ident \<Rightarrow> ColumnBody \<Rightarrow> Store \<Rightarrow> Column Response \<times> Store" where
  "put_column env i body s =
     (let (req, errors) = validateColumnUpdate body in
      if errors \<noteq> [] then (Json400 ''Validation failed'' errors, s)
      else
        case column_update i (cb_title req) (cb_status req) (cb_order req) (now env) s of
          Inl e \<Rightarrow>
            (if e = P2025 then (Json404 ''Column not found'', s)
             else (Json500 ''Failed to update column'', s))
        | Inr (column, s') \<Rightarrow> (Json200 column, s'))"

definition delete_column :: "ident \<Rightarrow> Store \<Rightarrow> string Response \<times> Store" where
  "delete_column i s =
     (case column_delete i s of
        Inl e \<Rightarrow>
          (if e = P2025 then (Json404 ''Column not found'', s)
           else (Json500 ''Failed to delete column'', s))
      | Inr s' \<Rightarrow> (Json200 ''Column deleted successfully'', s'))"

section \<open>The API as a transition system\<close>

datatype Request =
    GET_boards
  | GET_board ident
  | POST_board Env BoardBody
  | PUT_board Env ident BoardBody
  | DELETE_board ident
  | GET_tasks "jsstring option" "jsstring option"
  | GET_task ident
  | POST_task Env TaskBody
  | PUT_task Env ident TaskBody
  | DELETE_task ident
  | GET_columns "jsstring option"
  | GET_board_columns ident
  | GET_column ident
  | POST_column Env ColumnBody
  | PUT_column Env ident ColumnBody
  | DELETE_column ident

text \<open>The store after a request has been served.\<close>

fun step :: "Request \<Rightarrow> Store \<Rightarrow> Store" where
  "step GET_boards s = s"
| "step (GET_board i) s = s"
| "step (POST_board env body) s = snd (post_board env body s)"
| "step (PUT_board env i body) s = snd (put_board env i body s)"
| "step (DELETE_board i) s = snd (delete_board i s)"
| "step (GET_tasks boardId status) s = s"
| "step (GET_task i) s = s"
| "step (POST_task env body) s = snd (post_task env body s)"
| "step (PUT_task env i body) s = snd (put_task env i body s)"
| "step (DELETE_task i) s = snd (delete_task i s)"
| "step (GET_columns boardId) s = s"
| "step (GET_board_columns boardId) s = s"
| "step (GET_column i) s = s"
| "step (POST_column env body) s = snd (post_column env body s)"
| "step (PUT_column env i body) s = snd (put_column env i body s)"
| "step (DELETE_column i) s = snd (delete_column i s)"

text \<open>The store after a sequence of requests has been served, one after the other. The
  stores the API can be in are those that a sequence of requests makes of the empty
  database.\<close>

fun run :: "Request list \<Rightarrow> Store \<Rightarrow> Store" where
  "run [] s = s"
| "run (r # rs) s = run rs (step r s)"

text \<open>No task and no column refers to a board that is not there.\<close>

definition noOrphans :: "Store \<Rightarrow> bool" where
  "noOrphans s =
     (list_all (\<lambda>t. board_findUnique (t_boardId t) s \<noteq> None) (tasks s)
      \<and> list_all (\<lambda>c. board_findUnique (c_boardId c) s \<noteq> None) (columns s))"

text \<open>The \<^verbatim>\<open>@id\<close> of a row is unique in its table.\<close>

definition uniqueIds :: "Store \<Rightarrow> bool" where
  "uniqueIds s =
     (distinct (map b_id (boards s)) \<and> distinct (map t_id (tasks s))
      \<and> distinct (map c_id (columns s)))"

section \<open>Presentation layer (BoardDetail.tsx, TaskColumn.tsx)\<close>

definition staticStatuses :: "jsstring list" where
  "staticStatuses = [js ''TODO'', js ''IN_PROGRESS'', js ''DONE'']"

text \<open>\<^verbatim>\<open>const allStatuses = [...staticStatuses, ...columns.map(col => col.status)]\<close>\<close>

definition allStatuses :: "Column list \<Rightarrow> jsstring list" where
  "allStatuses cols = staticStatuses @ map c_status cols"

definition getTasksByStatus :: "Task list \<Rightarrow> jsstring \<Rightarrow> Task list" where
  "getTasksByStatus tsks status = filter (\<lambda>task. t_status task = status) tsks"

text \<open>The properties BoardDetail passes to a TaskColumn; \<open>onDeleteColumn\<close> is undefined
  (\<open>None\<close>) or deletes the column of the identifier it holds.\<close>

record TaskColumnProps =
  status :: jsstring
  title :: jsstring
  isStatic :: bool
  columnTasks :: "Task list"
  onDeleteColumn :: "ident option"

text \<open>\<^verbatim>\<open>const isStatic = staticStatuses.includes(status)\<close>\<close>

definition isStaticStatus :: "jsstring \<Rightarrow> bool" where
  "isStaticStatus st = (st \<in> set staticStatuses)"

text \<open>The body of \<^verbatim>\<open>allStatuses.map(status => ...)\<close>.\<close>

definition taskColumn :: "Column list \<Rightarrow> Task list \<Rightarrow> jsstring \<Rightarrow> TaskColumnProps" where
  "taskColumn cols tsks st =
     (let column = find (\<lambda>col. c_status col = st) cols
      in \<lparr>status = st,
          title = orElse (map_option c_title column) st,
          isStatic = isStaticStatus st,
          columnTasks = getTasksByStatus tsks st,
          onDeleteColumn =
            (if isStaticStatus st then None else Some (orElse (map_option c_id column) []))\<rparr>)"

definition kanbanBoard :: "Column list \<Rightarrow> Task list \<Rightarrow> TaskColumnProps list" where
  "kanbanBoard cols tsks = map (taskColumn cols tsks) (allStatuses cols)"

text \<open>The hooks \<^verbatim>\<open>useColumns(board.id)\<close> and \<^verbatim>\<open>useTasks(board.id)\<close> after their fetch.\<close>

definition useColumns :: "ident \<Rightarrow> Store \<Rightarrow> Column list" where
  "useColumns boardId s =
     (case get_board_columns boardId s of Json200 cols \<Rightarrow> cols | _ \<Rightarrow> [])"

definition useTasks :: "ident \<Rightarrow> Store \<Rightarrow> Task list" where
  "useTasks boardId s =
     (case get_tasks (Some boardId) None s of Json200 tsks \<Rightarrow> map fst tsks | _ \<Rightarrow> [])"

text \<open>The columns BoardDetail shows for a board.\<close>

definition effectiveColumns :: "ident \<Rightarrow> Store \<Rightarrow> TaskColumnProps list" where
  "effectiveColumns boardId s = kanbanBoard (useColumns boardId s) (useTasks boardId s)"

text \<open>TaskColumn.tsx: the label of a status, the heading
  \<^verbatim>\<open>{title || getStatusLabel(status)}\<close>, and the condition
  \<^verbatim>\<open>!isStatic && onDeleteColumn\<close> under which the delete button is rendered.\<close>

definition getStatusLabel :: "jsstring \<Rightarrow> jsstring" where
  "getStatusLabel st =
     (if st = js ''TODO'' then js ''TODO''
      else if st = js ''IN_PROGRESS'' then js ''DOING''
      else if st = js ''DONE'' then js ''DONE''
      else st)"

definition columnHeading :: "TaskColumnProps \<Rightarrow> jsstring" where
  "columnHeading props = orElse (Some (title props)) (getStatusLabel (status props))"

definition deleteButton :: "TaskColumnProps \<Rightarrow> ident option" where
  "deleteButton props = (if \<not> isStatic props then onDeleteColumn props else None)"

text \<open>A status can be deleted from the board view when it is not static: only then does
  BoardDetail pass a delete action to the column.\<close>

definition isDeletable :: "jsstring \<Rightarrow> bool" where
  "isDeletable st = (\<not> isStaticStatus st)"

text \<open>\<^verbatim>\<open>handleCreateColumn\<close>: the status of a new column is derived from its title, under
  the comment \<^verbatim>\<open>// Generate a unique status based on the title\<close>:
  \<^verbatim>\<open>const status = data.title.toUpperCase().replace(/\s+/g, '_')\<close>\<close>

definition deriveStatusKey :: "(nat \<Rightarrow> nat list) \<Rightarrow> jsstring \<Rightarrow> jsstring" where
  "deriveStatusKey unicode ttl = replaceWhitespaceRuns (toUpperCase unicode ttl)"

definition handleCreateColumn ::
  "(nat \<Rightarrow> nat list) \<Rightarrow> Env \<Rightarrow> ident \<Rightarrow> jsstring \<Rightarrow> Store \<Rightarrow> Column Response \<times> Store" where
  "handleCreateColumn unicode env boardId ttl s =
     post_column env
       \<lparr>cb_title = Some ttl, cb_status = Some (deriveStatusKey unicode ttl),
        cb_boardId = Some boardId, cb_order = None\<rparr> s"

section \<open>A run of the API\<close>

text \<open>The end-to-end scenario: a board ``Sprint 1'', the columns ``In Review'' and ``QA'',
  and the task ``Fix bug'' in review.\<close>

definition sprint :: Store where
  "sprint =
     run [POST_board \<lparr>cuid = js ''b1'', now = 1\<rparr>
            \<lparr>bb_title = Some (js ''Sprint 1''), bb_description = None\<rparr>,
          POST_column \<lparr>cuid = js ''c1'', now = 2\<rparr>
            \<lparr>cb_title = Some (js ''In Review''), cb_status = Some (js ''IN_REVIEW''),
             cb_boardId = Some (js ''b1''), cb_order = None\<rparr>,
          POST_column \<lparr>cuid = js ''c2'', now = 3\<rparr>
            \<lparr>cb_title = Some (js ''QA''), cb_status = Some (js ''QA''), cb_boardId = Some (js ''b1''),
             cb_order = None\<rparr>,
          POST_task \<lparr>cuid = js ''t1'', now = 4\<rparr>
            \<lparr>tb_title = Some (js ''Fix bug''), tb_description = None, tb_status = Some (js ''IN_REVIEW''),
             tb_priority = None, tb_boardId = Some (js ''b1'')\<rparr>]
       emptyStore"

section \<open>Literals\<close>

lemma js_eq_iff [simp]: "js a = js b \<longleftrightarrow> a = b"
  unfolding js_def by (rule inj_map_eq_map) (rule inj_of_char)

lemma js_Nil [simp]: "js [] = []"
  by (simp add: js_def)

lemma js_eq_Nil [simp]: "js a = [] \<longleftrightarrow> a = []"
  by (simp add: js_def)

lemma Nil_eq_js [simp]: "[] = js a \<longleftrightarrow> a = []"
  by (auto simp: js_def)

section \<open>Properties of the status key\<close>

lemma underscore_not_whitespace: "\<not> isWhitespace 95"
  by (simp add: isWhitespace_def)

lemma toUpperCodePoint_underscore: "toUpperCodePoint unicode 95 = [95]"
  by (simp add: toUpperCodePoint_def)

lemma toUpperCase_fixed:
  assumes "\<forall>d \<in> set xs. toUpperCodePoint unicode d = [d]"
  shows "toUpperCase unicode xs = xs"
  using assms by (induction xs) (simp_all add: toUpperCase_def)

lemma replaceWhitespaceRuns_set:
  "set (replaceWhitespaceRuns s) \<subseteq> insert 95 {c \<in> set s. \<not> isWhitespace c}"
proof (induction s rule: replaceWhitespaceRuns.induct)
  case 1
  show ?case by simp
next
  case (2 c cs)
  show ?case
  proof (cases "isWhitespace c")
    case True
    have "set (dropWhile isWhitespace cs) \<subseteq> set cs"
      by (auto dest: set_dropWhileD)
    with True "2.IH"(1) show ?thesis by auto
  next
    case False
    with "2.IH"(2) show ?thesis by auto
  qed
qed

lemma replaceWhitespaceRuns_id:
  "\<forall>c \<in> set s. \<not> isWhitespace c \<Longrightarrow> replaceWhitespaceRuns s = s"
  by (induction s) auto

lemma deriveStatusKey_no_whitespace:
  "c \<in> set (deriveStatusKey unicode s) \<Longrightarrow> \<not> isWhitespace c"
  using replaceWhitespaceRuns_set [of "toUpperCase unicode s"] underscore_not_whitespace
  by (auto simp: deriveStatusKey_def)

lemma deriveStatusKey_upper:
  assumes closed: "\<forall>c. \<forall>d \<in> set (toUpperCodePoint unicode c). toUpperCodePoint unicode d = [d]"
      and c: "c \<in> set (deriveStatusKey unicode s)"
  shows "toUpperCodePoint unicode c = [c]"
proof -
  from c have "c = 95 \<or> c \<in> set (toUpperCase unicode s)"
    using replaceWhitespaceRuns_set [of "toUpperCase unicode s"]
    by (auto simp: deriveStatusKey_def)
  then show ?thesis
  proof
    assume "c = 95"
    then show ?thesis by (simp add: toUpperCodePoint_underscore)
  next
    assume "c \<in> set (toUpperCase unicode s)"
    then obtain b where "c \<in> set (toUpperCodePoint unicode b)"
      by (auto simp: toUpperCase_def)
    with closed show ?thesis by blast
  qed
qed

lemma deriveStatusKey_fixed:
  assumes "\<forall>c. \<forall>d \<in> set (toUpperCodePoint unicode c). toUpperCodePoint unicode d = [d]"
  shows "deriveStatusKey unicode (deriveStatusKey unicode s) = deriveStatusKey unicode s"
proof -
  have "toUpperCase unicode (deriveStatusKey unicode s) = deriveStatusKey unicode s"
    using assms by (intro toUpperCase_fixed ballI) (rule deriveStatusKey_upper)
  moreover have "replaceWhitespaceRuns (deriveStatusKey unicode s) = deriveStatusKey unicode s"
    by (rule replaceWhitespaceRuns_id) (simp add: deriveStatusKey_no_whitespace)
  ultimately show ?thesis
    by (simp add: deriveStatusKey_def)
qed

lemma deriveStatusKey_In_Review: "deriveStatusKey unicode (js ''In Review'') = js ''IN_REVIEW''"
  by code_simp

lemma deriveStatusKey_code_review:
  "deriveStatusKey unicode (js ''code   review'') = js ''CODE_REVIEW''"
  by code_simp

lemma latin1Upper_closed:
  "\<forall>c. \<forall>d \<in> set (toUpperCodePoint latin1Upper c). toUpperCodePoint latin1Upper d = [d]"
  by (auto simp: toUpperCodePoint_def latin1Upper_def split: if_splits)

text \<open>
  C2. The status key of a column title is the title in upper case with every run of
  whitespace replaced by a single underscore: ``In Review'' gives \<open>IN_REVIEW\<close> and
  ``code   review'' gives \<open>CODE_REVIEW\<close>, and a key holds no whitespace. Deriving the key of
  a key gives the same key again, for every string, when the upper-case mappings of the
  runtime lead to code points that are their own upper case, as those of the Unicode
  character database do (then no code point of a key has another upper case).
\<close>

theorem deriveStatusKey_idempotent:
  assumes "\<forall>c. \<forall>d \<in> set (toUpperCodePoint unicode c). toUpperCodePoint unicode d = [d]"
  shows "deriveStatusKey unicode (js ''In Review'') = js ''IN_REVIEW''
   \<and> deriveStatusKey unicode (js ''code   review'') = js ''CODE_REVIEW''
   \<and> deriveStatusKey unicode s = replaceWhitespaceRuns (toUpperCase unicode s)
   \<and> (\<forall>c \<in> set (deriveStatusKey unicode s).
         \<not> isWhitespace c \<and> toUpperCodePoint unicode c = [c])
   \<and> deriveStatusKey unicode (deriveStatusKey unicode s) = deriveStatusKey unicode s"
proof -
  have "deriveStatusKey unicode s = replaceWhitespaceRuns (toUpperCase unicode s)"
    by (simp add: deriveStatusKey_def)
  moreover have "\<forall>c \<in> set (deriveStatusKey unicode s).
         \<not> isWhitespace c \<and> toUpperCodePoint unicode c = [c]"
    using deriveStatusKey_no_whitespace deriveStatusKey_upper [OF assms] by blast
  ultimately show ?thesis
    using deriveStatusKey_fixed [OF assms] deriveStatusKey_In_Review deriveStatusKey_code_review
    by blast
qed

text \<open>Two titles beyond ASCII: ``caf'', U+00E9, U+00A0, ``au lait'' (an accented letter
  and a no-break space), and ``stra'', U+00DF, ``e'' (a letter whose upper case is two
  letters).\<close>

theorem deriveStatusKey_idempotent_witness:
  "deriveStatusKey latin1Upper [99, 97, 102, 233, 160, 97, 117, 32, 108, 97, 105, 116]
     = [67, 65, 70, 201, 95, 65, 85, 95, 76, 65, 73, 84]
   \<and> deriveStatusKey latin1Upper [67, 65, 70, 201, 95, 65, 85, 95, 76, 65, 73, 84]
     = [67, 65, 70, 201, 95, 65, 85, 95, 76, 65, 73, 84]
   \<and> deriveStatusKey latin1Upper [115, 116, 114, 97, 223, 101] = js ''STRASSE''
   \<and> deriveStatusKey latin1Upper (js ''STRASSE'') = js ''STRASSE''"
proof -
  have k: "deriveStatusKey latin1Upper [99, 97, 102, 233, 160, 97, 117, 32, 108, 97, 105, 116]
     = [67, 65, 70, 201, 95, 65, 85, 95, 76, 65, 73, 84]"
    by code_simp
  have l: "deriveStatusKey latin1Upper [115, 116, 114, 97, 223, 101] = js ''STRASSE''"
    by code_simp
  have "deriveStatusKey latin1Upper
          (deriveStatusKey latin1Upper [99, 97, 102, 233, 160, 97, 117, 32, 108, 97, 105, 116])
        = deriveStatusKey latin1Upper [99, 97, 102, 233, 160, 97, 117, 32, 108, 97, 105, 116]"
    using deriveStatusKey_idempotent [OF latin1Upper_closed] by blast
  then have 1: "deriveStatusKey latin1Upper [67, 65, 70, 201, 95, 65, 85, 95, 76, 65, 73, 84]
     = [67, 65, 70, 201, 95, 65, 85, 95, 76, 65, 73, 84]"
    by (simp only: k)
  have "deriveStatusKey latin1Upper (deriveStatusKey latin1Upper [115, 116, 114, 97, 223, 101])
        = deriveStatusKey latin1Upper [115, 116, 114, 97, 223, 101]"
    using deriveStatusKey_idempotent [OF latin1Upper_closed] by blast
  then have 2: "deriveStatusKey latin1Upper (js ''STRASSE'') = js ''STRASSE''"
    by (simp only: l)
  from k l 1 2 show ?thesis by blast
qed

section \<open>The scenario store\<close>

lemma sprint_value:
  "sprint =
     \<lparr>boards = [\<lparr>b_id = js ''b1'', b_title = js ''Sprint 1'', b_description = None,
                  b_createdAt = 1, b_updatedAt = 1\<rparr>],
      tasks = [\<lparr>t_id = js ''t1'', t_title = js ''Fix bug'', t_description = None,
                 t_status = js ''IN_REVIEW'', t_priority = MEDIUM, t_createdAt = 4,
                 t_updatedAt = 4, t_boardId = js ''b1''\<rparr>],
      columns = [\<lparr>c_id = js ''c1'', c_title = js ''In Review'', c_status = js ''IN_REVIEW'', c_order = 0,
                   c_createdAt = 2, c_updatedAt = 2, c_boardId = js ''b1''\<rparr>,
                 \<lparr>c_id = js ''c2'', c_title = js ''QA'', c_status = js ''QA'', c_order = 1,
                   c_createdAt = 3, c_updatedAt = 3, c_boardId = js ''b1''\<rparr>]\<rparr>"
  by code_simp

lemma sprint_task: "task_findUnique (js ''t1'') sprint =
    Some \<lparr>t_id = js ''t1'', t_title = js ''Fix bug'', t_description = None,
                 t_status = js ''IN_REVIEW'', t_priority = MEDIUM, t_createdAt = 4,
                 t_updatedAt = 4, t_boardId = js ''b1''\<rparr>"
  by (simp add: sprint_value task_findUnique_def)

lemma sprint_board: "board_findUnique (js ''b1'') sprint =
    Some \<lparr>b_id = js ''b1'', b_title = js ''Sprint 1'', b_description = None,
                  b_createdAt = 1, b_updatedAt = 1\<rparr>"
  by (simp add: sprint_value board_findUnique_def)

section \<open>Creating a task\<close>

text \<open>
  C6. A request to create a task that passes the field validation and names a board that
  does not exist is answered with 404 ``Board not found'', and the store is left as it was:
  no task row is created.
\<close>

theorem post_task_unknown_board:
  assumes "snd (validateTask body) = []"
      and "tb_boardId body = Some B"
      and "board_findUnique B s = None"
  shows "post_task env body s = (Json404 ''Board not found'', s)
         \<and> statusCode (fst (post_task env body s)) = 404
         \<and> tasks (snd (post_task env body s)) = tasks s"
  using assms by (simp add: post_task_def validateTask_def Let_def)

theorem post_task_unknown_board_witness:
  "snd (validateTask \<lparr>tb_title = Some (js ''Fix bug''), tb_description = None, tb_status = None,
                        tb_priority = None, tb_boardId = Some (js ''b7'')\<rparr>) = []
   \<and> board_findUnique (js ''b7'') sprint = None
   \<and> post_task \<lparr>cuid = js ''t2'', now = 5\<rparr>
        \<lparr>tb_title = Some (js ''Fix bug''), tb_description = None, tb_status = None,
         tb_priority = None, tb_boardId = Some (js ''b7'')\<rparr> sprint
       = (Json404 ''Board not found'', sprint)"
proof -
  have v: "snd (validateTask \<lparr>tb_title = Some (js ''Fix bug''), tb_description = None, tb_status = None,
                        tb_priority = None, tb_boardId = Some (js ''b7'')\<rparr>) = []"
    by code_simp
  have b: "board_findUnique (js ''b7'') sprint = None"
    by (simp add: board_findUnique_def sprint_value)
  from post_task_unknown_board [OF v _ b] v b show ?thesis by simp
qed

section \<open>Updating a task\<close>

lemma find_map_replace:
  assumes "find (\<lambda>x. f x = i) xs = Some t" and "f t' = i"
  shows "find (\<lambda>x. f x = i) (map (\<lambda>x. if f x = i then t' else x) xs) = Some t'"
  using assms by (induction xs) (auto split: if_splits)

text \<open>
  C8. Updating an existing task with the body \<open>{status: st}\<close> succeeds with 200 for every
  string \<open>st\<close>, whether or not a column or a static status of that name exists: the stored
  task gets the status \<open>st\<close> (and a new update time), while its title, description,
  priority and board stay as they were; a later fetch of the task gives the updated row.
\<close>

theorem put_task_status_only:
  assumes "task_findUnique i s = Some t"
  shows "\<exists>t' s'.
           put_task env i \<lparr>tb_title = None, tb_description = None, tb_status = Some st,
                           tb_priority = None, tb_boardId = None\<rparr> s
             = (Json200 (includeBoard t' s'), s')
         \<and> t' = t\<lparr>t_status := st, t_updatedAt := now env\<rparr>
         \<and> t_status t' = st
         \<and> t_title t' = t_title t \<and> t_description t' = t_description t
         \<and> t_priority t' = t_priority t \<and> t_boardId t' = t_boardId t
         \<and> s' = s\<lparr>tasks := map (\<lambda>x. if t_id x = i then t' else x) (tasks s)\<rparr>
         \<and> task_findUnique i s' = Some t'"
proof -
  let ?t' = "t\<lparr>t_status := st, t_updatedAt := now env\<rparr>"
  let ?s' = "s\<lparr>tasks := map (\<lambda>x. if t_id x = i then ?t' else x) (tasks s)\<rparr>"
  from assms have id: "t_id t = i"
    by (auto simp: task_findUnique_def find_Some_iff)
  have v: "validateTaskUpdate \<lparr>tb_title = None, tb_description = None, tb_status = Some st,
                           tb_priority = None, tb_boardId = None\<rparr>
           = (\<lparr>tb_title = None, tb_description = None, tb_status = Some st,
                           tb_priority = None, tb_boardId = None\<rparr>, [])"
    by (simp add: validateTaskUpdate_def optional_def check_def isString_def)
  have u: "task_update i None None (Some st) None (now env) s = Inr (?t', ?s')"
    using assms by (simp add: task_update_def Let_def)
  have p: "put_task env i \<lparr>tb_title = None, tb_description = None, tb_status = Some st,
                           tb_priority = None, tb_boardId = None\<rparr> s
             = (Json200 (includeBoard ?t' ?s'), ?s')"
    by (simp add: put_task_def v u)
  have f: "task_findUnique i ?s' = Some ?t'"
    using assms id by (simp add: task_findUnique_def find_map_replace)
  from p f show ?thesis by simp
qed

theorem put_task_status_only_witness:
  "task_findUnique (js ''t1'') sprint \<noteq> None
   \<and> task_findUnique (js ''t1'')
        (snd (put_task \<lparr>cuid = [], now = 5\<rparr> (js ''t1'')
                \<lparr>tb_title = None, tb_description = None, tb_status = Some (js ''no such column''),
                 tb_priority = None, tb_boardId = None\<rparr> sprint))
      = Some \<lparr>t_id = js ''t1'', t_title = js ''Fix bug'', t_description = None,
               t_status = js ''no such column'', t_priority = MEDIUM, t_createdAt = 4,
               t_updatedAt = 5, t_boardId = js ''b1''\<rparr>"
proof -
  from put_task_status_only [OF sprint_task, of "\<lparr>cuid = [], now = 5\<rparr>" "js ''no such column''"]
  obtain t' s' where
    "put_task \<lparr>cuid = [], now = 5\<rparr> (js ''t1'')
          \<lparr>tb_title = None, tb_description = None, tb_status = Some (js ''no such column''),
           tb_priority = None, tb_boardId = None\<rparr> sprint = (Json200 (includeBoard t' s'), s')"
    and "t' = \<lparr>t_id = js ''t1'', t_title = js ''Fix bug'', t_description = None,
                 t_status = js ''IN_REVIEW'', t_priority = MEDIUM, t_createdAt = 4,
                 t_updatedAt = 4, t_boardId = js ''b1''\<rparr>
              \<lparr>t_status := js ''no such column'', t_updatedAt := now \<lparr>cuid = [], now = 5\<rparr>\<rparr>"
    and "task_findUnique (js ''t1'') s' = Some t'"
    by blast
  then show ?thesis by (simp add: sprint_task)
qed

section \<open>The empty status on creation\<close>

lemma validateTask_priority:
  assumes "snd (validateTask body) = []"
  shows "parsePriority (orElse (tb_priority body) (js ''MEDIUM'')) \<noteq> None"
proof (cases "tb_priority body")
  case None
  then show ?thesis by (simp add: orElse_def parsePriority_def)
next
  case (Some p)
  with assms have "isIn [js ''LOW'', js ''MEDIUM'', js ''HIGH''] p"
    by (simp add: validateTask_def Let_def optional_def check_def split: if_splits)
  then have "p = js ''LOW'' \<or> p = js ''MEDIUM'' \<or> p = js ''HIGH''"
    by (auto simp: isIn_def)
  with Some show ?thesis by (auto simp: orElse_def parsePriority_def)
qed

lemma validateTask_fields:
  "fst (validateTask body) =
     body\<lparr>tb_title := Some (trim (toString (tb_title body))),
          tb_description := map_option trim (tb_description body)\<rparr>"
  by (simp add: validateTask_def Let_def)

lemma validateTask_status_irrelevant:
  "snd (validateTask (body\<lparr>tb_status := Some st\<rparr>)) = snd (validateTask (body\<lparr>tb_status := None\<rparr>))"
  by (simp add: validateTask_def Let_def optional_def check_def isString_def)

text \<open>
  C10. A request to create a task whose status field is present but empty passes the
  validation exactly when the same request without the status field does; when it names an
  existing board (and the new identifier is free) it is answered with 201, and the task
  that is stored and returned has the status \<open>TODO\<close>, not the empty string.
\<close>

theorem post_task_empty_status:
  assumes "tb_status body = Some []"
      and "snd (validateTask (body\<lparr>tb_status := None\<rparr>)) = []"
      and "tb_boardId body = Some B"
      and "board_findUnique B s \<noteq> None"
      and "task_findUnique (cuid env) s = None"
  shows "snd (validateTask body) = []
         \<and> (\<exists>t. post_task env body s = (Json201 (includeBoard t (s\<lparr>tasks := tasks s @ [t]\<rparr>)),
                                         s\<lparr>tasks := tasks s @ [t]\<rparr>)
                \<and> t_id t = cuid env \<and> t_boardId t = B \<and> t_status t = js ''TODO'')"
proof -
  have "body = body\<lparr>tb_status := Some []\<rparr>"
    using assms(1) by simp
  then have v: "snd (validateTask body) = []"
    using validateTask_status_irrelevant [where body = body and st = "[]"] assms(2) by simp
  then obtain prio where prio: "parsePriority (orElse (tb_priority body) (js ''MEDIUM'')) = Some prio"
    using validateTask_priority by blast
  define t where "t = \<lparr>t_id = cuid env, t_title = trim (toString (tb_title body)),
      t_description = map_option trim (tb_description body), t_status = js ''TODO'',
      t_priority = prio, t_createdAt = now env, t_updatedAt = now env, t_boardId = B\<rparr>"
  have c: "task_create env (Some (trim (toString (tb_title body))))
             (map_option trim (tb_description body)) (js ''TODO'')
             (orElse (tb_priority body) (js ''MEDIUM'')) B s
           = Inr (t, s\<lparr>tasks := tasks s @ [t]\<rparr>)"
    using assms(4,5) prio by (simp add: task_create_def t_def Let_def)
  obtain req errs where r: "validateTask body = (req, errs)"
    by (cases "validateTask body")
  with v have errs: "errs = []" by simp
  from r validateTask_fields [of body] have req: "req = body\<lparr>tb_title := Some (trim (toString (tb_title body))),
          tb_description := map_option trim (tb_description body)\<rparr>"
    by simp
  have "post_task env body s = (Json201 (includeBoard t (s\<lparr>tasks := tasks s @ [t]\<rparr>)),
                                         s\<lparr>tasks := tasks s @ [t]\<rparr>)"
    using assms(1,3,4) c by (auto simp: post_task_def r errs req orElse_def)
  moreover have "t_id t = cuid env \<and> t_boardId t = B \<and> t_status t = js ''TODO''"
    by (simp add: t_def)
  ultimately show ?thesis using v by blast
qed

theorem post_task_empty_status_witness:
  "snd (validateTask \<lparr>tb_title = Some (js ''Write tests''), tb_description = None,
                        tb_status = None, tb_priority = None, tb_boardId = Some (js ''b1'')\<rparr>) = []
   \<and> board_findUnique (js ''b1'') sprint \<noteq> None
   \<and> task_findUnique (js ''t2'') sprint = None
   \<and> map t_status (tasks (snd (post_task \<lparr>cuid = js ''t2'', now = 5\<rparr>
         \<lparr>tb_title = Some (js ''Write tests''), tb_description = None,
          tb_status = Some [], tb_priority = None, tb_boardId = Some (js ''b1'')\<rparr> sprint)))
       = [js ''IN_REVIEW'', js ''TODO'']"
proof -
  let ?body = "\<lparr>tb_title = Some (js ''Write tests''), tb_description = None,
          tb_status = Some [], tb_priority = None, tb_boardId = Some (js ''b1'')\<rparr>"
  have v: "snd (validateTask (?body\<lparr>tb_status := None\<rparr>)) = []"
    by code_simp
  have b: "board_findUnique (js ''b1'') sprint \<noteq> None"
    by (simp add: sprint_board)
  have f: "task_findUnique (js ''t2'') sprint = None"
    by (simp add: sprint_value task_findUnique_def)
  from post_task_empty_status [of ?body "js ''b1''" sprint "\<lparr>cuid = js ''t2'', now = 5\<rparr>", OF _ v _ b]
  obtain t where "post_task \<lparr>cuid = js ''t2'', now = 5\<rparr> ?body sprint
           = (Json201 (includeBoard t (sprint\<lparr>tasks := tasks sprint @ [t]\<rparr>)),
              sprint\<lparr>tasks := tasks sprint @ [t]\<rparr>)"
      and "t_status t = js ''TODO''"
    using f by auto
  then have "map t_status (tasks (snd (post_task \<lparr>cuid = js ''t2'', now = 5\<rparr> ?body sprint)))
       = [js ''IN_REVIEW'', js ''TODO'']"
    by (simp add: sprint_value)
  with v b f show ?thesis by simp
qed

section \<open>Validation of a board\<close>

lemma trim_no_outer_whitespace:
  assumes "t \<noteq> []" and "\<not> isWhitespace (hd t)" and "\<not> isWhitespace (last t)"
  shows "trim t = t"
proof -
  from assms(1,2) have "dropWhile isWhitespace t = t"
    by (cases t) simp_all
  moreover from assms(1,3) have "dropWhile isWhitespace (rev t) = rev t"
    by (cases "rev t") (simp_all add: hd_rev [symmetric])
  ultimately show ?thesis by (simp add: trim_def)
qed

lemma trim_Nil: "trim [] = []"
  by (simp add: trim_def)

lemma validateBoard_title_error:
  assumes "\<not> isLength 1 100 (trim (toString (bb_title body)))"
  shows "\<exists>errs. snd (validateBoard body)
           = (''title'', ''Title must be between 1 and 100 characters'') # errs"
  using assms by (simp add: validateBoard_def Let_def check_def)

lemma post_board_invalid:
  assumes "snd (validateBoard body) = e # errs"
  shows "post_board env body s = (Json400 ''Validation failed'' (e # errs), s)"
  using assms by (cases "validateBoard body") (simp add: post_board_def)

lemma put_board_invalid:
  assumes "snd (validateBoard body) = e # errs"
  shows "put_board env i body s = (Json400 ''Validation failed'' (e # errs), s)"
  using assms by (cases "validateBoard body") (simp add: put_board_def)

lemma validatorLength_plain:
  assumes "\<forall>c \<in> set t. c \<noteq> 65038 \<and> c \<noteq> 65039"
  shows "validatorLength t = length t"
  using assms by (simp add: validatorLength_def)

text \<open>
  C9. A request to create a board is answered with 400 ``Validation failed'', with a
  message for the field \<open>title\<close>, when the title is empty, and more generally when the
  title, after leading and trailing whitespace is trimmed, is empty or counts more than
  100 characters: so for every title of 101 characters that neither starts nor ends with
  whitespace (and holds no variation selector, which the length check does not count).
  The answer is the same for every store and the store is returned as it was: the failure
  is found without access to the store and no board row is created.
\<close>

theorem post_board_rejects_title:
  assumes "t = toString (bb_title body)"
      and "t = [] \<or> trim t = [] \<or> 100 < validatorLength (trim t)
           \<or> (length t = 101 \<and> \<not> isWhitespace (hd t) \<and> \<not> isWhitespace (last t)
                \<and> (\<forall>c \<in> set t. c \<noteq> 65038 \<and> c \<noteq> 65039))"
  shows "\<exists>errs. \<forall>env s.
           post_board env body s
             = (Json400 ''Validation failed''
                  ((''title'', ''Title must be between 1 and 100 characters'') # errs), s)"
proof -
  have "\<not> isLength 1 100 (trim t)"
  proof -
    consider "t = []" | "trim t = []" | "100 < validatorLength (trim t)"
      | "length t = 101" "\<not> isWhitespace (hd t)" "\<not> isWhitespace (last t)"
        "\<forall>c \<in> set t. c \<noteq> 65038 \<and> c \<noteq> 65039"
      using assms(2) by blast
    then show ?thesis
    proof cases
      case 1
      then show ?thesis by (simp add: trim_Nil isLength_def validatorLength_def)
    next
      case 2
      then show ?thesis by (simp add: isLength_def validatorLength_def)
    next
      case 3
      then show ?thesis by (simp add: isLength_def)
    next
      case 4
      from 4(1) have "t \<noteq> []" by auto
      with 4 have "trim t = t" by (simp add: trim_no_outer_whitespace)
      with 4(1,4) show ?thesis by (simp add: isLength_def validatorLength_plain)
    qed
  qed
  with assms(1) obtain errs where
    "snd (validateBoard body) = (''title'', ''Title must be between 1 and 100 characters'') # errs"
    using validateBoard_title_error by blast
  then show ?thesis using post_board_invalid by blast
qed

theorem post_board_rejects_title_witness:
  "post_board \<lparr>cuid = js ''b2'', now = 5\<rparr> \<lparr>bb_title = Some [], bb_description = None\<rparr> sprint
     = (Json400 ''Validation failed''
          [(''title'', ''Title must be between 1 and 100 characters'')], sprint)
   \<and> statusCode (fst (post_board \<lparr>cuid = js ''b2'', now = 5\<rparr>
        \<lparr>bb_title = Some (replicate 101 (97::nat)), bb_description = None\<rparr> sprint)) = 400
   \<and> snd (post_board \<lparr>cuid = js ''b2'', now = 5\<rparr>
        \<lparr>bb_title = Some (replicate 101 (97::nat)), bb_description = None\<rparr> sprint) = sprint"
proof -
  from post_board_rejects_title [of "[]" "\<lparr>bb_title = Some [], bb_description = None\<rparr>"]
  obtain errs where e: "\<And>env s. post_board env \<lparr>bb_title = Some [], bb_description = None\<rparr> s
             = (Json400 ''Validation failed''
                  ((''title'', ''Title must be between 1 and 100 characters'') # errs), s)"
    by (auto simp: toString_def)
  have "snd (validateBoard \<lparr>bb_title = Some [], bb_description = None\<rparr>)
          = [(''title'', ''Title must be between 1 and 100 characters'')]"
    by code_simp
  then have "post_board \<lparr>cuid = js ''b2'', now = 5\<rparr> \<lparr>bb_title = Some [], bb_description = None\<rparr> sprint
     = (Json400 ''Validation failed''
          [(''title'', ''Title must be between 1 and 100 characters'')], sprint)"
    using e [of "\<lparr>cuid = js ''b2'', now = 5\<rparr>" sprint]
    by (simp add: post_board_def split: prod.splits)
  moreover
  have w: "\<not> isWhitespace 97" by (simp add: isWhitespace_def)
  have "hd (replicate 101 (97::nat)) = 97" "last (replicate 101 (97::nat)) = 97"
    "\<forall>c \<in> set (replicate 101 (97::nat)). c \<noteq> 65038 \<and> c \<noteq> 65039"
    by simp_all
  with w post_board_rejects_title [of "replicate 101 (97::nat)"
         "\<lparr>bb_title = Some (replicate 101 (97::nat)), bb_description = None\<rparr>"]
  obtain errs' where "\<And>env s. post_board env
      \<lparr>bb_title = Some (replicate 101 (97::nat)), bb_description = None\<rparr> s
             = (Json400 ''Validation failed''
                  ((''title'', ''Title must be between 1 and 100 characters'') # errs'), s)"
    by (auto simp: toString_def)
  ultimately show ?thesis by simp
qed

text \<open>A title of 100 letters and a final space, and one of 100 letters and a final
  no-break space (U+00A0): both are trimmed to 100 characters and the board is created.\<close>

theorem post_board_title_101_counterexample:
  "length (replicate 100 (97::nat) @ [32]) = 101
   \<and> statusCode (fst (post_board \<lparr>cuid = js ''b2'', now = 5\<rparr>
        \<lparr>bb_title = Some (replicate 100 (97::nat) @ [32]), bb_description = None\<rparr> sprint)) = 201
   \<and> map b_title (boards (snd (post_board \<lparr>cuid = js ''b2'', now = 5\<rparr>
        \<lparr>bb_title = Some (replicate 100 (97::nat) @ [32]), bb_description = None\<rparr> sprint)))
      = [js ''Sprint 1'', replicate 100 (97::nat)]
   \<and> statusCode (fst (post_board \<lparr>cuid = js ''b2'', now = 5\<rparr>
        \<lparr>bb_title = Some (replicate 100 (97::nat) @ [160]), bb_description = None\<rparr> sprint)) = 201"
  by code_simp

section \<open>Updating a board\<close>

text \<open>
  C4. A request to update the existing board ``Sprint 1'' whose body holds a description
  and no title is answered with 400 ``Validation failed'' and a message for the field
  \<open>title\<close>; the board keeps its description.
\<close>

theorem put_board_without_title:
  "board_findUnique (js ''b1'') sprint
     = Some \<lparr>b_id = js ''b1'', b_title = js ''Sprint 1'', b_description = None,
              b_createdAt = 1, b_updatedAt = 1\<rparr>
   \<and> put_board \<lparr>cuid = [], now = 5\<rparr> (js ''b1'')
        \<lparr>bb_title = None, bb_description = Some (js ''Second sprint'')\<rparr> sprint
     = (Json400 ''Validation failed''
          [(''title'', ''Title must be between 1 and 100 characters'')], sprint)"
proof -
  have "snd (validateBoard \<lparr>bb_title = None, bb_description = Some (js ''Second sprint'')\<rparr>)
          = [(''title'', ''Title must be between 1 and 100 characters'')]"
    by code_simp
  then show ?thesis
    by (simp add: put_board_invalid sprint_board)
qed

section \<open>The order of a new column\<close>

lemma sort_key_head_least:
  assumes "sort_key f xs = y # ys"
  shows "y \<in> set xs \<and> (\<forall>x \<in> set xs. f y \<le> f x)"
proof -
  have "set (sort_key f xs) = set xs" by simp
  with assms have s: "set xs = insert y (set ys)" by simp
  have "sorted (map f (sort_key f xs))" by (rule sorted_sort_key)
  with assms have "\<forall>x \<in> set ys. f y \<le> f x" by simp
  with s show ?thesis by auto
qed

lemma column_findFirst_None:
  "column_findFirst B s = None \<longleftrightarrow> (\<forall>c \<in> set (columns s). c_boardId c \<noteq> B)"
proof -
  let ?xs = "filter (\<lambda>c. c_boardId c = B) (columns s)"
  have "column_findFirst B s = None \<longleftrightarrow> sort_key (\<lambda>c. - c_order c) ?xs = []"
    by (simp add: column_findFirst_def split: list.splits)
  also have "\<dots> \<longleftrightarrow> set (sort_key (\<lambda>c. - c_order c) ?xs) = {}"
    by (simp only: set_empty)
  also have "\<dots> \<longleftrightarrow> (\<forall>c \<in> set (columns s). c_boardId c \<noteq> B)"
    by auto
  finally show ?thesis .
qed

lemma column_findFirst_Some:
  assumes "column_findFirst B s = Some y"
  shows "c_order y = Max (c_order ` {c \<in> set (columns s). c_boardId c = B})"
proof -
  let ?xs = "filter (\<lambda>c. c_boardId c = B) (columns s)"
  from assms obtain ys where "sort_key (\<lambda>c. - c_order c) ?xs = y # ys"
    by (auto simp: column_findFirst_def split: list.splits)
  then have "y \<in> set ?xs" and "\<forall>x \<in> set ?xs. - c_order y \<le> - c_order x"
    using sort_key_head_least [of "\<lambda>c. - c_order c" ?xs y ys] by blast+
  then have "c_order y \<in> c_order ` {c \<in> set (columns s). c_boardId c = B}"
    and "\<forall>n \<in> c_order ` {c \<in> set (columns s). c_boardId c = B}. n \<le> c_order y"
    by auto
  then show ?thesis
    by (intro Max_eqI [symmetric]) auto
qed

lemma nextColumnOrder_Max:
  "nextColumnOrder B s =
     (if \<forall>c \<in> set (columns s). c_boardId c \<noteq> B then 0
      else Max (c_order ` {c \<in> set (columns s). c_boardId c = B}) + 1)"
proof (cases "column_findFirst B s")
  case None
  then show ?thesis
    using column_findFirst_None [of B s] by (simp add: nextColumnOrder_def)
next
  case (Some y)
  then have "\<not> (\<forall>c \<in> set (columns s). c_boardId c \<noteq> B)"
    using column_findFirst_None [of B s] by simp
  with Some column_findFirst_Some [OF Some] show ?thesis
    by (auto simp: nextColumnOrder_def)
qed

lemma post_column_created:
  assumes "post_column env body s = (Json201 col, s')"
  shows "c_order col = nextColumnOrder (c_boardId col) s \<and> columns s' = columns s @ [col]"
proof -
  obtain req errs where v: "validateColumn body = (req, errs)"
    by (cases "validateColumn body")
  from assms v have e: "errs = []"
    by (auto simp: post_column_def split: if_splits)
  from assms v e obtain B where B: "cb_boardId req = Some B"
    by (auto simp: post_column_def split: option.splits)
  from assms v e B obtain brd where brd: "board_findUnique B s = Some brd"
    by (auto simp: post_column_def split: option.splits)
  from assms v e B brd
  have "column_create env (cb_title req) (cb_status req) B (nextColumnOrder B s) s = Inr (col, s')"
    by (auto simp: post_column_def Let_def split: sum.splits)
  then show ?thesis
    by (auto simp: column_create_def Let_def split: option.splits if_splits)
qed

text \<open>
  C5. The next order number of a board is 0 when the board has no column and otherwise
  one more than the greatest order among its columns (4 over the orders 0 and 3), and a
  column that has been created carries this number as its order.
\<close>

theorem nextColumnOrder_spec:
  "nextColumnOrder B s =
     (if \<forall>c \<in> set (columns s). c_boardId c \<noteq> B then 0
      else Max (c_order ` {c \<in> set (columns s). c_boardId c = B}) + 1)
   \<and> (map c_order (filter (\<lambda>c. c_boardId c = B) (columns s)) = [0, 3]
        \<longrightarrow> nextColumnOrder B s = 4)
   \<and> (post_column env body s = (Json201 col, s')
        \<longrightarrow> c_order col = nextColumnOrder (c_boardId col) s \<and> columns s' = columns s @ [col])"
proof -
  have "nextColumnOrder B s = 4"
    if h: "map c_order (filter (\<lambda>c. c_boardId c = B) (columns s)) = [0, 3]"
  proof -
    have "c_order ` {c \<in> set (columns s). c_boardId c = B}
            = set (map c_order (filter (\<lambda>c. c_boardId c = B) (columns s)))"
      by auto
    with h have i: "c_order ` {c \<in> set (columns s). c_boardId c = B} = {0, 3}"
      by simp
    then have "\<not> (\<forall>c \<in> set (columns s). c_boardId c \<noteq> B)"
      by auto
    with i show ?thesis
      by (simp add: nextColumnOrder_Max)
  qed
  then show ?thesis
    using nextColumnOrder_Max [of B s] post_column_created [of env body s col s'] by blast
qed

theorem nextColumnOrder_spec_witness:
  "map c_order (filter (\<lambda>c. c_boardId c = js ''b1'')
     (columns (step (PUT_column \<lparr>cuid = [], now = 5\<rparr> (js ''c2'')
        \<lparr>cb_title = None, cb_status = None, cb_boardId = None, cb_order = Some 3\<rparr>) sprint)))
     = [0, 3]
   \<and> nextColumnOrder (js ''b1'') (step (PUT_column \<lparr>cuid = [], now = 5\<rparr> (js ''c2'')
        \<lparr>cb_title = None, cb_status = None, cb_boardId = None, cb_order = Some 3\<rparr>) sprint) = 4
   \<and> nextColumnOrder (js ''b2'') sprint = 0
   \<and> fst (post_column \<lparr>cuid = js ''c3'', now = 5\<rparr>
        \<lparr>cb_title = Some (js ''Blocked''), cb_status = Some (js ''BLOCKED''), cb_boardId = Some (js ''b1''),
         cb_order = None\<rparr> sprint)
     = Json201 \<lparr>c_id = js ''c3'', c_title = js ''Blocked'', c_status = js ''BLOCKED'', c_order = 2,
                 c_createdAt = 5, c_updatedAt = 5, c_boardId = js ''b1''\<rparr>"
proof -
  let ?s = "step (PUT_column \<lparr>cuid = [], now = 5\<rparr> (js ''c2'')
        \<lparr>cb_title = None, cb_status = None, cb_boardId = None, cb_order = Some 3\<rparr>) sprint"
  have o: "map c_order (filter (\<lambda>c. c_boardId c = js ''b1'') (columns ?s)) = [0, 3]"
    by code_simp
  have n: "\<forall>c \<in> set (columns sprint). c_boardId c \<noteq> (js ''b2'')"
    by (simp add: sprint_value)
  have "nextColumnOrder (js ''b1'') ?s = 4"
    using nextColumnOrder_spec [of "js ''b1''" ?s, THEN conjunct2, THEN conjunct1] o by blast
  moreover have "nextColumnOrder (js ''b2'') sprint = 0"
    using nextColumnOrder_spec [of "js ''b2''" sprint, THEN conjunct1] n by simp
  moreover have "fst (post_column \<lparr>cuid = js ''c3'', now = 5\<rparr>
        \<lparr>cb_title = Some (js ''Blocked''), cb_status = Some (js ''BLOCKED''), cb_boardId = Some (js ''b1''),
         cb_order = None\<rparr> sprint)
     = Json201 \<lparr>c_id = js ''c3'', c_title = js ''Blocked'', c_status = js ''BLOCKED'', c_order = 2,
                 c_createdAt = 5, c_updatedAt = 5, c_boardId = js ''b1''\<rparr>"
    by code_simp
  ultimately show ?thesis using o by simp
qed

section \<open>The columns of the board view\<close>

lemma useColumns_eq:
  "useColumns B s = sort_key c_order (filter (\<lambda>c. c_boardId c = B) (columns s))"
  by (simp add: useColumns_def get_board_columns_def)

lemma status_taskColumn: "status (taskColumn cols tsks st) = st"
  by (simp add: taskColumn_def Let_def)

lemma isStatic_taskColumn: "isStatic (taskColumn cols tsks st) = isStaticStatus st"
  by (simp add: taskColumn_def Let_def)

lemma onDeleteColumn_taskColumn:
  "onDeleteColumn (taskColumn cols tsks st) = None \<longleftrightarrow> isStaticStatus st"
  by (simp add: taskColumn_def Let_def)

lemma title_taskColumn:
  assumes "find (\<lambda>col. c_status col = st) cols = Some c" and "c_title c \<noteq> []"
  shows "title (taskColumn cols tsks st) = c_title c"
  using assms by (simp add: taskColumn_def Let_def orElse_def)

lemma isStaticStatus_iff: "isStaticStatus st \<longleftrightarrow> st \<in> {js ''TODO'', js ''IN_PROGRESS'', js ''DONE''}"
  by (auto simp: isStaticStatus_def staticStatuses_def)

lemma map_status_kanbanBoard: "map status (kanbanBoard cols tsks) = allStatuses cols"
  by (simp add: kanbanBoard_def comp_def status_taskColumn)

lemma statuses_effectiveColumns:
  "map status (effectiveColumns B s)
     = [js ''TODO'', js ''IN_PROGRESS'', js ''DONE''] @ map c_status (useColumns B s)"
  by (simp add: effectiveColumns_def map_status_kanbanBoard allStatuses_def staticStatuses_def)

text \<open>
  C3. On the board of the scenario the user creates a column with the title ``todo'': its
  status is derived as \<open>TODO\<close> and the column is stored. The board view then shows six
  columns with the statuses TODO, IN_PROGRESS, DONE, IN_REVIEW, QA and TODO again: the
  static status is listed twice. Both entries carry the title ``todo'', neither has a
  delete button, and the static IN_PROGRESS is headed IN_PROGRESS.
\<close>

theorem static_status_listed_twice:
  "map status (effectiveColumns (js ''b1'')
      (snd (handleCreateColumn latin1Upper \<lparr>cuid = js ''c3'', now = 5\<rparr> (js ''b1'') (js ''todo'')
             sprint)))
     = [js ''TODO'', js ''IN_PROGRESS'', js ''DONE'', js ''IN_REVIEW'', js ''QA'', js ''TODO'']
   \<and> map columnHeading (effectiveColumns (js ''b1'')
      (snd (handleCreateColumn latin1Upper \<lparr>cuid = js ''c3'', now = 5\<rparr> (js ''b1'') (js ''todo'')
             sprint)))
     = [js ''todo'', js ''IN_PROGRESS'', js ''DONE'', js ''In Review'', js ''QA'', js ''todo'']
   \<and> map deleteButton (effectiveColumns (js ''b1'')
      (snd (handleCreateColumn latin1Upper \<lparr>cuid = js ''c3'', now = 5\<rparr> (js ''b1'') (js ''todo'')
             sprint)))
     = [None, None, None, Some (js ''c1''), Some (js ''c2''), None]
   \<and> map c_status (columns
      (snd (handleCreateColumn latin1Upper \<lparr>cuid = js ''c3'', now = 5\<rparr> (js ''b1'') (js ''todo'')
             sprint)))
     = [js ''IN_REVIEW'', js ''QA'', js ''TODO'']"
  by code_simp

section \<open>Deleting a column\<close>

text \<open>
  C7. A status can be deleted exactly when it is not one of the three static statuses:
  TODO, IN_PROGRESS and DONE cannot, CODE_REVIEW can. The board view gives the column of a
  status a delete action, and shows the delete button, exactly when the status can be
  deleted; and whatever column is deleted through the API, the three static statuses are
  still the first three columns of every board.
\<close>

theorem isDeletable_spec:
  "isDeletable (js ''TODO'') = False \<and> isDeletable (js ''IN_PROGRESS'') = False
   \<and> isDeletable (js ''DONE'') = False \<and> isDeletable (js ''CODE_REVIEW'') = True
   \<and> (isDeletable st \<longleftrightarrow> st \<notin> {js ''TODO'', js ''IN_PROGRESS'', js ''DONE''})
   \<and> (onDeleteColumn (taskColumn cols tsks st) \<noteq> None \<longleftrightarrow> isDeletable st)
   \<and> (deleteButton (taskColumn cols tsks st) \<noteq> None \<longleftrightarrow> isDeletable st)
   \<and> map status (take 3 (effectiveColumns B (snd (delete_column i s))))
       = [js ''TODO'', js ''IN_PROGRESS'', js ''DONE'']"
proof -
  have "isDeletable st \<longleftrightarrow> st \<notin> {js ''TODO'', js ''IN_PROGRESS'', js ''DONE''}" for st
    by (simp add: isDeletable_def isStaticStatus_iff)
  moreover have "onDeleteColumn (taskColumn cols tsks st) \<noteq> None \<longleftrightarrow> isDeletable st"
    using onDeleteColumn_taskColumn [of cols tsks st] by (auto simp: isDeletable_def)
  moreover have "deleteButton (taskColumn cols tsks st) \<noteq> None \<longleftrightarrow> isDeletable st"
    using onDeleteColumn_taskColumn [of cols tsks st]
    by (auto simp: deleteButton_def isStatic_taskColumn isDeletable_def)
  moreover have "map status (take 3 (effectiveColumns B (snd (delete_column i s))))
       = [js ''TODO'', js ''IN_PROGRESS'', js ''DONE'']"
    by (simp add: take_map [symmetric] statuses_effectiveColumns)
  ultimately show ?thesis by simp
qed

theorem isDeletable_spec_witness:
  "isDeletable (js ''QA'')
   \<and> deleteButton (taskColumn (useColumns (js ''b1'') sprint) (useTasks (js ''b1'') sprint) (js ''QA'')) \<noteq> None
   \<and> deleteButton (taskColumn (useColumns (js ''b1'') sprint) (useTasks (js ''b1'') sprint) (js ''DONE'')) = None
   \<and> map status (take 3 (effectiveColumns (js ''b1'') (snd (delete_column (js ''c2'') sprint))))
       = [js ''TODO'', js ''IN_PROGRESS'', js ''DONE'']"
  using isDeletable_spec [of "js ''QA''" "useColumns (js ''b1'') sprint" "useTasks (js ''b1'') sprint"
           "js ''b1''" "js ''c2''" sprint]
        isDeletable_spec [of "js ''DONE''" "useColumns (js ''b1'') sprint" "useTasks (js ''b1'') sprint"
           "js ''b1''" "js ''c2''" sprint]
  by auto

section \<open>Integrity of the store\<close>

lemma board_findUnique_None: "board_findUnique i s = None \<longleftrightarrow> i \<notin> b_id ` set (boards s)"
  by (auto simp: board_findUnique_def find_None_iff)

lemma task_findUnique_None: "task_findUnique i s = None \<longleftrightarrow> i \<notin> t_id ` set (tasks s)"
  by (auto simp: task_findUnique_def find_None_iff)

lemma column_findUnique_None: "column_findUnique i s = None \<longleftrightarrow> i \<notin> c_id ` set (columns s)"
  by (auto simp: column_findUnique_def find_None_iff)

lemma noOrphans_iff:
  "noOrphans s \<longleftrightarrow>
     (\<forall>t \<in> set (tasks s). t_boardId t \<in> b_id ` set (boards s))
     \<and> (\<forall>c \<in> set (columns s). c_boardId c \<in> b_id ` set (boards s))"
  by (simp add: noOrphans_def list_all_iff board_findUnique_None)

lemma find_Some_key:
  assumes "find (\<lambda>x. f x = i) xs = Some y"
  shows "f y = i \<and> y \<in> set xs"
  using assms by (auto simp: find_Some_iff)

lemma map_key_replace:
  assumes "f y = i"
  shows "map f (map (\<lambda>x. if f x = i then y else x) xs) = map f xs"
  using assms by (induction xs) auto

lemma board_create_inv:
  assumes "board_create env ttl d s = Inr (b, s')" and "uniqueIds s" and "noOrphans s"
  shows "uniqueIds s' \<and> noOrphans s'"
proof -
  from assms(1) have f: "cuid env \<notin> b_id ` set (boards s)"
    and b: "b_id b = cuid env"
    and s': "s' = s\<lparr>boards := boards s @ [b]\<rparr>"
    by (auto simp: board_create_def Let_def board_findUnique_None
             split: option.splits if_splits)
  from f b s' assms(2) have "uniqueIds s'"
    by (auto simp: uniqueIds_def)
  moreover from s' assms(3) have "noOrphans s'"
    by (auto simp: noOrphans_iff)
  ultimately show ?thesis ..
qed

lemma board_update_inv:
  assumes "board_update i ttl d time s = Inr (b, s')" and "uniqueIds s" and "noOrphans s"
  shows "uniqueIds s' \<and> noOrphans s'"
proof -
  from assms(1) obtain b0 where b0: "board_findUnique i s = Some b0"
    by (auto simp: board_update_def split: option.splits)
  with assms(1) have b: "b_id b = i"
    and s': "s' = s\<lparr>boards := map (\<lambda>x. if b_id x = i then b else x) (boards s)\<rparr>"
    using find_Some_key [of b_id i "boards s" b0]
    by (auto simp: board_update_def Let_def board_findUnique_def)
  from b s' have "map b_id (boards s') = map b_id (boards s)"
    by (simp add: map_key_replace)
  moreover from s' have "tasks s' = tasks s" "columns s' = columns s"
    by simp_all
  ultimately have "uniqueIds s' = uniqueIds s" "noOrphans s' = noOrphans s"
    by (simp_all add: uniqueIds_def noOrphans_iff flip: set_map)
  with assms(2,3) show ?thesis by simp
qed

lemma board_delete_inv:
  assumes "board_delete i s = Inr s'" and "uniqueIds s" and "noOrphans s"
  shows "uniqueIds s' \<and> noOrphans s'"
proof -
  from assms(1) have s': "boards s' = filter (\<lambda>x. b_id x \<noteq> i) (boards s)"
    "tasks s' = filter (\<lambda>t. t_boardId t \<noteq> i) (tasks s)"
    "columns s' = filter (\<lambda>c. c_boardId c \<noteq> i) (columns s)"
    by (auto simp: board_delete_def split: option.splits)
  from s' assms(2) have "uniqueIds s'"
    by (simp add: uniqueIds_def distinct_map_filter)
  moreover from s' assms(3) have "noOrphans s'"
    by (auto simp: noOrphans_iff)
  ultimately show ?thesis ..
qed

lemma task_create_inv:
  assumes "task_create env ttl d st p B s = Inr (t, s')" and "uniqueIds s" and "noOrphans s"
  shows "uniqueIds s' \<and> noOrphans s'"
proof -
  from assms(1) have f: "cuid env \<notin> t_id ` set (tasks s)"
    and B: "B \<in> b_id ` set (boards s)"
    and t: "t_id t = cuid env" "t_boardId t = B"
    and s': "s' = s\<lparr>tasks := tasks s @ [t]\<rparr>"
    by (auto simp: task_create_def Let_def task_findUnique_None board_findUnique_None
             split: option.splits if_splits)
  from f t s' assms(2) have "uniqueIds s'"
    by (auto simp: uniqueIds_def)
  moreover from B t s' assms(3) have "noOrphans s'"
    by (auto simp: noOrphans_iff)
  ultimately show ?thesis ..
qed

lemma task_update_inv:
  assumes "task_update i ttl d st p time s = Inr (t, s')" and "uniqueIds s" and "noOrphans s"
  shows "uniqueIds s' \<and> noOrphans s'"
proof -
  from assms(1) obtain t0 where t0: "task_findUnique i s = Some t0"
    by (auto simp: task_update_def split: option.splits)
  then have k: "t_id t0 = i" "t0 \<in> set (tasks s)"
    using find_Some_key [of t_id i "tasks s" t0] by (simp_all add: task_findUnique_def)
  from assms(1) t0 k have t: "t_id t = i" "t_boardId t = t_boardId t0"
    and s': "s' = s\<lparr>tasks := map (\<lambda>x. if t_id x = i then t else x) (tasks s)\<rparr>"
    by (auto simp: task_update_def Let_def split: option.splits)
  from t s' have "map t_id (tasks s') = map t_id (tasks s)"
    by (simp add: map_key_replace)
  moreover from s' have "boards s' = boards s" "columns s' = columns s"
    by simp_all
  ultimately have "uniqueIds s'"
    using assms(2) by (simp add: uniqueIds_def)
  moreover from t k s' assms(3) have "noOrphans s'"
    by (auto simp: noOrphans_iff)
  ultimately show ?thesis ..
qed

lemma task_delete_inv:
  assumes "task_delete i s = Inr s'" and "uniqueIds s" and "noOrphans s"
  shows "uniqueIds s' \<and> noOrphans s'"
proof -
  from assms(1) have s': "s' = s\<lparr>tasks := filter (\<lambda>x. t_id x \<noteq> i) (tasks s)\<rparr>"
    by (auto simp: task_delete_def split: option.splits)
  from s' assms(2) have "uniqueIds s'"
    by (simp add: uniqueIds_def distinct_map_filter)
  moreover from s' assms(3) have "noOrphans s'"
    by (auto simp: noOrphans_iff)
  ultimately show ?thesis ..
qed

lemma column_create_inv:
  assumes "column_create env ttl st B n s = Inr (c, s')" and "uniqueIds s" and "noOrphans s"
  shows "uniqueIds s' \<and> noOrphans s'"
proof -
  from assms(1) have f: "cuid env \<notin> c_id ` set (columns s)"
    and B: "B \<in> b_id ` set (boards s)"
    and c: "c_id c = cuid env" "c_boardId c = B"
    and s': "s' = s\<lparr>columns := columns s @ [c]\<rparr>"
    by (auto simp: column_create_def Let_def column_findUnique_None board_findUnique_None
             split: option.splits if_splits)
  from f c s' assms(2) have "uniqueIds s'"
    by (auto simp: uniqueIds_def)
  moreover from B c s' assms(3) have "noOrphans s'"
    by (auto simp: noOrphans_iff)
  ultimately show ?thesis ..
qed

lemma column_update_inv:
  assumes "column_update i ttl st n time s = Inr (c, s')" and "uniqueIds s" and "noOrphans s"
  shows "uniqueIds s' \<and> noOrphans s'"
proof -
  from assms(1) obtain c0 where c0: "column_findUnique i s = Some c0"
    by (auto simp: column_update_def split: option.splits)
  then have k: "c_id c0 = i" "c0 \<in> set (columns s)"
    using find_Some_key [of c_id i "columns s" c0] by (simp_all add: column_findUnique_def)
  from assms(1) c0 k have c: "c_id c = i" "c_boardId c = c_boardId c0"
    and s': "s' = s\<lparr>columns := map (\<lambda>x. if c_id x = i then c else x) (columns s)\<rparr>"
    by (auto simp: column_update_def Let_def split: option.splits if_splits)
  from c s' have "map c_id (columns s') = map c_id (columns s)"
    by (simp add: map_key_replace)
  moreover from s' have "boards s' = boards s" "tasks s' = tasks s"
    by simp_all
  ultimately have "uniqueIds s'"
    using assms(2) by (simp add: uniqueIds_def)
  moreover from c k s' assms(3) have "noOrphans s'"
    by (auto simp: noOrphans_iff)
  ultimately show ?thesis ..
qed

lemma column_delete_inv:
  assumes "column_delete i s = Inr s'" and "uniqueIds s" and "noOrphans s"
  shows "uniqueIds s' \<and> noOrphans s'"
proof -
  from assms(1) have s': "s' = s\<lparr>columns := filter (\<lambda>x. c_id x \<noteq> i) (columns s)\<rparr>"
    by (auto simp: column_delete_def split: option.splits)
  from s' assms(2) have "uniqueIds s'"
    by (simp add: uniqueIds_def distinct_map_filter)
  moreover from s' assms(3) have "noOrphans s'"
    by (auto simp: noOrphans_iff)
  ultimately show ?thesis ..
qed

lemma post_board_inv:
  assumes "uniqueIds s" and "noOrphans s"
  shows "uniqueIds (snd (post_board env body s)) \<and> noOrphans (snd (post_board env body s))"
  using assms board_create_inv
  by (cases "validateBoard body") (auto simp: post_board_def split: sum.splits)

lemma put_board_inv:
  assumes "uniqueIds s" and "noOrphans s"
  shows "uniqueIds (snd (put_board env i body s)) \<and> noOrphans (snd (put_board env i body s))"
  using assms board_update_inv
  by (cases "validateBoard body") (auto simp: put_board_def split: sum.splits)

lemma delete_board_inv:
  assumes "uniqueIds s" and "noOrphans s"
  shows "uniqueIds (snd (delete_board i s)) \<and> noOrphans (snd (delete_board i s))"
  using assms board_delete_inv
  by (auto simp: delete_board_def split: sum.splits)

lemma post_task_inv:
  assumes "uniqueIds s" and "noOrphans s"
  shows "uniqueIds (snd (post_task env body s)) \<and> noOrphans (snd (post_task env body s))"
  using assms task_create_inv
  by (cases "validateTask body") (auto simp: post_task_def split: sum.splits option.splits)

lemma put_task_inv:
  assumes "uniqueIds s" and "noOrphans s"
  shows "uniqueIds (snd (put_task env i body s)) \<and> noOrphans (snd (put_task env i body s))"
  using assms task_update_inv
  by (cases "validateTaskUpdate body") (auto simp: put_task_def split: sum.splits)

lemma delete_task_inv:
  assumes "uniqueIds s" and "noOrphans s"
  shows "uniqueIds (snd (delete_task i s)) \<and> noOrphans (snd (delete_task i s))"
  using assms task_delete_inv
  by (auto simp: delete_task_def split: sum.splits)

lemma post_column_inv:
  assumes "uniqueIds s" and "noOrphans s"
  shows "uniqueIds (snd (post_column env body s)) \<and> noOrphans (snd (post_column env body s))"
  using assms column_create_inv
  by (cases "validateColumn body")
     (auto simp: post_column_def Let_def split: sum.splits option.splits)

lemma put_column_inv:
  assumes "uniqueIds s" and "noOrphans s"
  shows "uniqueIds (snd (put_column env i body s)) \<and> noOrphans (snd (put_column env i body s))"
  using assms column_update_inv
  by (cases "validateColumnUpdate body") (auto simp: put_column_def split: sum.splits)

lemma delete_column_inv:
  assumes "uniqueIds s" and "noOrphans s"
  shows "uniqueIds (snd (delete_column i s)) \<and> noOrphans (snd (delete_column i s))"
  using assms column_delete_inv
  by (auto simp: delete_column_def split: sum.splits)

lemma step_inv:
  assumes "uniqueIds s \<and> noOrphans s"
  shows "uniqueIds (step r s) \<and> noOrphans (step r s)"
  using assms
  by (cases r)
     (simp_all add: post_board_inv put_board_inv delete_board_inv post_task_inv put_task_inv
        delete_task_inv post_column_inv put_column_inv delete_column_inv)

lemma run_inv:
  assumes "uniqueIds s \<and> noOrphans s"
  shows "uniqueIds (run rs s) \<and> noOrphans (run rs s)"
  using assms
proof (induction rs arbitrary: s)
  case Nil
  then show ?case by simp
next
  case (Cons r rs)
  from Cons.prems have "uniqueIds (step r s) \<and> noOrphans (step r s)"
    by (rule step_inv)
  then show ?case
    using Cons.IH by simp
qed

lemma emptyStore_inv: "uniqueIds emptyStore \<and> noOrphans emptyStore"
  by (simp add: uniqueIds_def noOrphans_def emptyStore_def)

section \<open>Deleting a board\<close>

lemma distinct_key_unique:
  assumes "distinct (map f xs)" and "x \<in> set xs" and "y \<in> set xs" and "f x = f y"
  shows "x = y"
  using assms by (meson distinct_map inj_on_eq_iff)

lemma delete_board_found:
  assumes "board_findUnique B s \<noteq> None"
  shows "delete_board B s =
           (Json200 ''Board deleted successfully'',
            \<lparr>boards = filter (\<lambda>b. b_id b \<noteq> B) (boards s),
             tasks = filter (\<lambda>t. t_boardId t \<noteq> B) (tasks s),
             columns = filter (\<lambda>c. c_boardId c \<noteq> B) (columns s)\<rparr>)"
  using assms by (auto simp: delete_board_def board_delete_def)

text \<open>
  C1. In every store that a sequence of requests makes of the empty database, no task and
  no column refers to a board that does not exist, and this is still so after any further
  request. Deleting an existing board B is
  answered with 200 and removes, in the one operation, B and every task and every column
  whose \<open>boardId\<close> is the identifier of B, and nothing else; afterwards a fetch of B, of any
  of those tasks or of any of those columns by its identifier is answered with 404.
\<close>

theorem delete_board_cascades:
  assumes "s = run rs emptyStore"
  shows "noOrphans s \<and> (\<forall>r. noOrphans (step r s))
         \<and> (board_findUnique B s \<noteq> None \<longrightarrow>
              (\<exists>s'. delete_board B s = (Json200 ''Board deleted successfully'', s')
                 \<and> boards s' = filter (\<lambda>b. b_id b \<noteq> B) (boards s)
                 \<and> tasks s' = filter (\<lambda>t. t_boardId t \<noteq> B) (tasks s)
                 \<and> columns s' = filter (\<lambda>c. c_boardId c \<noteq> B) (columns s)
                 \<and> get_board B s' = Json404 ''Board not found''
                 \<and> (\<forall>t \<in> set (tasks s). t_boardId t = B
                        \<longrightarrow> get_task (t_id t) s' = Json404 ''Task not found'')
                 \<and> (\<forall>c \<in> set (columns s). c_boardId c = B
                        \<longrightarrow> get_column (c_id c) s' = Json404 ''Column not found'')))"
proof -
  from assms have inv: "uniqueIds s" "noOrphans s"
    using run_inv [OF emptyStore_inv, of rs] by blast+
  have after: "\<forall>r. noOrphans (step r s)"
    using inv step_inv by blast
  have del: ?thesis if found: "board_findUnique B s \<noteq> None"
  proof -
    let ?s' = "\<lparr>boards = filter (\<lambda>b. b_id b \<noteq> B) (boards s),
                tasks = filter (\<lambda>t. t_boardId t \<noteq> B) (tasks s),
                columns = filter (\<lambda>c. c_boardId c \<noteq> B) (columns s)\<rparr>"
    have d: "delete_board B s = (Json200 ''Board deleted successfully'', ?s')"
      using found by (rule delete_board_found)
    have b: "get_board B ?s' = Json404 ''Board not found''"
    proof -
      have "board_findUnique B ?s' = None"
        by (auto simp: board_findUnique_None)
      then show ?thesis by (simp add: get_board_def)
    qed
    have t: "get_task (t_id t) ?s' = Json404 ''Task not found''"
      if "t \<in> set (tasks s)" "t_boardId t = B" for t
    proof -
      have "\<forall>x \<in> set (tasks s). t_boardId x \<noteq> B \<longrightarrow> t_id x \<noteq> t_id t"
        using distinct_key_unique [of t_id "tasks s" _ t] inv(1) that
        by (auto simp: uniqueIds_def)
      then have "t_id t \<notin> t_id ` set (tasks ?s')"
        by fastforce
      then have "task_findUnique (t_id t) ?s' = None"
        by (simp only: task_findUnique_None simp_thms)
      then show ?thesis by (simp add: get_task_def)
    qed
    have c: "get_column (c_id c) ?s' = Json404 ''Column not found''"
      if "c \<in> set (columns s)" "c_boardId c = B" for c
    proof -
      have "\<forall>x \<in> set (columns s). c_boardId x \<noteq> B \<longrightarrow> c_id x \<noteq> c_id c"
        using distinct_key_unique [of c_id "columns s" _ c] inv(1) that
        by (auto simp: uniqueIds_def)
      then have "c_id c \<notin> c_id ` set (columns ?s')"
        by fastforce
      then have "column_findUnique (c_id c) ?s' = None"
        by (simp only: column_findUnique_None simp_thms)
      then show ?thesis by (simp add: get_column_def)
    qed
    from d b t c have "\<exists>s'. delete_board B s = (Json200 ''Board deleted successfully'', s')
                 \<and> boards s' = filter (\<lambda>b. b_id b \<noteq> B) (boards s)
                 \<and> tasks s' = filter (\<lambda>t. t_boardId t \<noteq> B) (tasks s)
                 \<and> columns s' = filter (\<lambda>c. c_boardId c \<noteq> B) (columns s)
                 \<and> get_board B s' = Json404 ''Board not found''
                 \<and> (\<forall>t \<in> set (tasks s). t_boardId t = B
                        \<longrightarrow> get_task (t_id t) s' = Json404 ''Task not found'')
                 \<and> (\<forall>c \<in> set (columns s). c_boardId c = B
                        \<longrightarrow> get_column (c_id c) s' = Json404 ''Column not found'')"
      by (intro exI [of _ ?s']) simp
    with inv(2) after show ?thesis by blast
  qed
  show ?thesis
  proof (cases "board_findUnique B s = None")
    case True
    with inv(2) after show ?thesis by simp
  next
    case False
    then show ?thesis by (rule del)
  qed
qed

theorem delete_board_cascades_witness:
  "board_findUnique (js ''b1'') sprint \<noteq> None
   \<and> map t_boardId (tasks sprint) = [js ''b1'']
   \<and> map c_boardId (columns sprint) = [js ''b1'', js ''b1'']
   \<and> snd (delete_board (js ''b1'') sprint) = emptyStore
   \<and> get_board (js ''b1'') (snd (delete_board (js ''b1'') sprint)) = Json404 ''Board not found''
   \<and> get_task (js ''t1'') (snd (delete_board (js ''b1'') sprint)) = Json404 ''Task not found''
   \<and> get_column (js ''c2'') (snd (delete_board (js ''b1'') sprint)) = Json404 ''Column not found''
   \<and> noOrphans sprint"
proof -
  have f: "board_findUnique (js ''b1'') sprint \<noteq> None"
    by (simp add: sprint_board)
  from delete_board_cascades [OF sprint_def, of "js ''b1''"] f
  obtain s' where n: "noOrphans sprint"
    and d: "delete_board (js ''b1'') sprint = (Json200 ''Board deleted successfully'', s')"
    and e: "boards s' = filter (\<lambda>b. b_id b \<noteq> (js ''b1'')) (boards sprint)"
       "tasks s' = filter (\<lambda>t. t_boardId t \<noteq> (js ''b1'')) (tasks sprint)"
       "columns s' = filter (\<lambda>c. c_boardId c \<noteq> (js ''b1'')) (columns sprint)"
    and g: "get_board (js ''b1'') s' = Json404 ''Board not found''"
       "\<forall>t \<in> set (tasks sprint). t_boardId t = js ''b1''
           \<longrightarrow> get_task (t_id t) s' = Json404 ''Task not found''"
       "\<forall>c \<in> set (columns sprint). c_boardId c = js ''b1''
           \<longrightarrow> get_column (c_id c) s' = Json404 ''Column not found''"
    by blast
  from e have "s' = emptyStore"
    by (simp add: sprint_value emptyStore_def)
  moreover from g(2) have "get_task (js ''t1'') s' = Json404 ''Task not found''"
    by (simp add: sprint_value)
  moreover from g(3) have "get_column (js ''c2'') s' = Json404 ''Column not found''"
    by (simp add: sprint_value)
  moreover have "map t_boardId (tasks sprint) = [js ''b1'']"
    "map c_boardId (columns sprint) = [js ''b1'', js ''b1'']"
    by (simp_all add: sprint_value)
  ultimately show ?thesis
    using f n d g(1) by simp
qed

end
